theory Spec2Isabelle
  imports Complex_Main "HOL-Library.Log_Nat"
begin

section \<open>JavaScript numbers\<close>

text \<open>
  A JavaScript \<open>number\<close> is an IEEE-754 binary64 value: \<open>NaN\<close>, an infinity with its sign,
  a zero with its sign, or a finite value other than zero, given by the rational it
  denotes. The sign is \<open>True\<close> for a negative number. An arithmetic operation computes
  the exact rational result and rounds it to the nearest double, ties to the even
  mantissa (\<open>fl\<close>); what lies beyond the largest double becomes an infinity and what lies
  below the smallest subnormal becomes a zero.
\<close>

datatype number = NaN | Infinity bool | Zero bool | Fin rat

definition pow2 :: "int \<Rightarrow> rat" where
  "pow2 e = (if 0 \<le> e then 2 ^ nat e else 1 / 2 ^ nat (- e))"

text \<open>The integer part of the binary logarithm of a positive rational: the bit lengths of
  numerator and denominator give it up to one.\<close>

definition ilog2_from :: "rat \<Rightarrow> int \<Rightarrow> int" where
  "ilog2_from q k = (if pow2 k \<le> q then k else k - 1)"

definition ilog2 :: "rat \<Rightarrow> int" where
  "ilog2 q = ilog2_from q (bitlen (fst (quotient_of q)) - bitlen (snd (quotient_of q)))"

definition half_even :: "int \<Rightarrow> rat \<Rightarrow> int" where
  "half_even f r =
     (if r < 1 / 2 then f else if 1 / 2 < r then f + 1 else if even f then f else f + 1)"

definition round_half_even :: "rat \<Rightarrow> int" where
  "round_half_even t = half_even \<lfloor>t\<rfloor> (t - of_int \<lfloor>t\<rfloor>)"

text \<open>Rounding a positive rational \<open>q\<close> with the sign \<open>s\<close>: the exponent \<open>e\<close> of the last
  mantissa bit is 52 below the binary logarithm, and not below -1074 (subnormals); the
  mantissa \<open>m\<close> is \<open>q / 2^e\<close> rounded to an integer; the value is \<open>m * 2^e\<close>, an infinity
  from \<open>2^1024\<close> on.\<close>

definition fl_value :: "bool \<Rightarrow> int \<Rightarrow> int \<Rightarrow> rat \<Rightarrow> number" where
  "fl_value s e m v =
     (if m = 0 then Zero s
      else if 971 < e \<or> (e = 971 \<and> 9007199254740992 \<le> m) then Infinity s
      else Fin (if s then - v else v))"

definition fl_mant :: "bool \<Rightarrow> int \<Rightarrow> rat \<Rightarrow> int \<Rightarrow> number" where
  "fl_mant s e p m = fl_value s e m (of_int m * p)"

definition fl_exp :: "bool \<Rightarrow> rat \<Rightarrow> int \<Rightarrow> number" where
  "fl_exp s q e = fl_mant s e (pow2 e) (round_half_even (q / pow2 e))"

definition fl_pos :: "bool \<Rightarrow> rat \<Rightarrow> number" where
  "fl_pos s q = fl_exp s q (max (ilog2 q - 52) (- 1074))"

definition fl :: "rat \<Rightarrow> number" where
  "fl q = (if q = 0 then Zero False else if 0 < q then fl_pos False q else fl_pos True (- q))"

text \<open>The type has a value \<open>Fin q\<close> for every rational; the doubles among them are those that
  rounding leaves as they are.\<close>

definition is_double :: "number \<Rightarrow> bool" where
  "is_double x = (case x of Fin q \<Rightarrow> fl q = Fin q | _ \<Rightarrow> True)"

fun val :: "number \<Rightarrow> rat" where
  "val (Fin q) = q"
| "val x = 0"

fun negative :: "number \<Rightarrow> bool" where
  "negative (Infinity s) = s"
| "negative (Zero s) = s"
| "negative (Fin q) = (q < 0)"
| "negative NaN = False"

text \<open>Unary minus, \<open>+\<close>, \<open>-\<close>, \<open>*\<close>, \<open>/\<close>, \<open>>\<close> and \<open>===\<close> on numbers.\<close>

fun js_neg :: "number \<Rightarrow> number" where
  "js_neg NaN = NaN"
| "js_neg (Infinity s) = Infinity (\<not> s)"
| "js_neg (Zero s) = Zero (\<not> s)"
| "js_neg (Fin q) = Fin (- q)"

fun js_add :: "number \<Rightarrow> number \<Rightarrow> number" where
  "js_add NaN y = NaN"
| "js_add x NaN = NaN"
| "js_add (Infinity s) (Infinity t) = (if s = t then Infinity s else NaN)"
| "js_add (Infinity s) y = Infinity s"
| "js_add x (Infinity t) = Infinity t"
| "js_add (Zero s) (Zero t) = Zero (s \<and> t)"
| "js_add x y = fl (val x + val y)"

definition js_sub :: "number \<Rightarrow> number \<Rightarrow> number" where
  "js_sub x y = js_add x (js_neg y)"

fun js_mul :: "number \<Rightarrow> number \<Rightarrow> number" where
  "js_mul NaN y = NaN"
| "js_mul x NaN = NaN"
| "js_mul (Infinity s) (Zero t) = NaN"
| "js_mul (Zero s) (Infinity t) = NaN"
| "js_mul (Infinity s) y = Infinity (s \<noteq> negative y)"
| "js_mul x (Infinity t) = Infinity (negative x \<noteq> t)"
| "js_mul x y =
     (if val x = 0 \<or> val y = 0 then Zero (negative x \<noteq> negative y)
      else fl (val x * val y))"

fun js_div :: "number \<Rightarrow> number \<Rightarrow> number" where
  "js_div NaN y = NaN"
| "js_div x NaN = NaN"
| "js_div (Infinity s) (Infinity t) = NaN"
| "js_div (Infinity s) y = Infinity (s \<noteq> negative y)"
| "js_div x (Infinity t) = Zero (negative x \<noteq> t)"
| "js_div x y =
     (if val y = 0 then (if val x = 0 then NaN else Infinity (negative x \<noteq> negative y))
      else if val x = 0 then Zero (negative x \<noteq> negative y)
      else fl (val x / val y))"

fun js_gt :: "number \<Rightarrow> number \<Rightarrow> bool" where
  "js_gt NaN y = False"
| "js_gt x NaN = False"
| "js_gt (Infinity s) (Infinity t) = (\<not> s \<and> t)"
| "js_gt (Infinity s) y = (\<not> s)"
| "js_gt x (Infinity t) = t"
| "js_gt x y = (val y < val x)"

fun js_strict_eq :: "number \<Rightarrow> number \<Rightarrow> bool" where
  "js_strict_eq NaN y = False"
| "js_strict_eq x NaN = False"
| "js_strict_eq (Infinity s) (Infinity t) = (s = t)"
| "js_strict_eq (Infinity s) y = False"
| "js_strict_eq x (Infinity t) = False"
| "js_strict_eq x y = (val x = val y)"

text \<open>The most that rounding can move a result \<open>q\<close> that stays finite: half a unit in the
  last place, which is at most \<open>q\<close> times \<open>2^-53\<close> for a normal number and \<open>2^-1075\<close> for a
  subnormal one.\<close>

definition rounding_bound :: "rat \<Rightarrow> rat" where
  "rounding_bound q = max (\<bar>q\<bar> * pow2 (- 53)) (pow2 (- 1075))"

section \<open>The data model of \<open>use-free-scale.ts\<close>\<close>

text \<open>
  The hook \<open>useFreeScale\<close> keeps a translation, a scale and a rotation for a child element
  and updates them from mouse and wheel events. The embedding follows
  \<open>src/hooks/use-free-scale.ts\<close> line by line, with these conventions.

  \<^item> A ref or a piece of React state is a field of the record \<open>hook_state\<close>; every
    handler takes the state and returns the updated one.
  \<^item> The three React state cells \<open>transXY\<close>, \<open>scale\<close> and \<open>rotate\<close> are the field \<open>cells\<close>: a
    set-state call stores the value that the next render will read. The ref
    \<open>transformConfigRef\<close> is a field of its own: only a render writes it (lines 58 to 62),
    and the handlers read it. A render is an event like the others, so the model says
    what happens when two events arrive with no render between them.
  \<^item> The two element refs are the record \<open>Refs\<close>: \<open>None\<close> is a ref whose \<open>current\<close> is
    \<open>null\<close>, and \<open>Some r\<close> is a mounted element whose \<open>getBoundingClientRect()\<close> returns
    \<open>r\<close> while the event is handled. The layout belongs to the browser, so \<open>Refs\<close> is an
    input of every handler.
  \<^item> \<open>undefined\<close> of type \<open>IDomRect\<close> is \<open>None\<close>; a \<open>DOMRect\<close> object is always truthy.
  \<^item> \<open>e.preventDefault()\<close> changes nothing the hook reads and is left out.
  \<^item> The field \<open>rotate\<close> of \<open>ITransRes\<close> is \<open>rotate_deg\<close> and the field \<open>top\<close> of
    \<open>DOMRect\<close> is \<open>top_y\<close>, since \<open>rotate\<close> and \<open>top\<close> are constants of HOL; a \<open>DOMRect\<close>
    has the four fields that the hook reads.
\<close>

record ITransRes =
  transXY :: "number \<times> number"
  scale :: number
  rotate_deg :: number

record DOMRect =
  left :: number
  top_y :: number
  width :: number
  height :: number

type_synonym IDomRect = "DOMRect option"

record IRectData =
  originConatinerRect :: IDomRect
  originChildRect :: IDomRect

datatype IAction = MOVE | SCALE

type_synonym customTrans_fn =
  "ITransRes \<Rightarrow> ITransRes \<Rightarrow> IRectData \<Rightarrow> IAction \<Rightarrow> ITransRes"

record MouseEvent =
  clientX :: number
  clientY :: number

record WheelEvent = MouseEvent +
  deltaY :: number

record Refs =
  containerRef :: "DOMRect option"
  childRef :: "DOMRect option"

record hook_state =
  cells :: ITransRes
  transformConfigRef :: ITransRes
  mousedownLock :: bool
  mouseXY :: "number \<times> number"
  containerRectRef :: IDomRect
  childRectRef :: IDomRect

section \<open>The hook\<close>

text \<open>The literal \<open>0.1\<close> of line 4 is the double nearest to one tenth.\<close>

definition defaultScaleStep :: number where
  "defaultScaleStep = fl (1 / 10)"

text \<open>The default of the option \<open>customTrans\<close>: \<open>(_prev, v) => v\<close>.\<close>

definition defaultCustomTrans :: customTrans_fn where
  "defaultCustomTrans prev v rect action = v"

text \<open>The state after the first render: \<open>useState([0, 0])\<close>, \<open>useState(1)\<close>, \<open>useState(0)\<close>,
  the ref holding the same three values, \<open>useRef(false)\<close>, \<open>useRef([0, 0])\<close> and two
  \<open>useRef(undefined)\<close>.\<close>

definition useFreeScale :: hook_state where
  "useFreeScale =
     \<lparr>cells = \<lparr>transXY = (Zero False, Zero False), scale = Fin 1, rotate_deg = Zero False\<rparr>,
      transformConfigRef =
        \<lparr>transXY = (Zero False, Zero False), scale = Fin 1, rotate_deg = Zero False\<rparr>,
      mousedownLock = False,
      mouseXY = (Zero False, Zero False),
      containerRectRef = None,
      childRectRef = None\<rparr>"

text \<open>A render (lines 58 to 62) copies the three state cells into the ref.\<close>

definition render :: "hook_state \<Rightarrow> hook_state" where
  "render st = st\<lparr>transformConfigRef := cells st\<rparr>"

text \<open>The three setters the hook returns. Each replaces one state cell; the ref keeps its
  value until the next render.\<close>

definition setTransXY :: "number \<times> number \<Rightarrow> hook_state \<Rightarrow> hook_state" where
  "setTransXY p st = st\<lparr>cells := (cells st)\<lparr>transXY := p\<rparr>\<rparr>"

definition setScale :: "number \<Rightarrow> hook_state \<Rightarrow> hook_state" where
  "setScale s st = st\<lparr>cells := (cells st)\<lparr>scale := s\<rparr>\<rparr>"

definition setRotate :: "number \<Rightarrow> hook_state \<Rightarrow> hook_state" where
  "setRotate r st = st\<lparr>cells := (cells st)\<lparr>rotate_deg := r\<rparr>\<rparr>"

text \<open>\<open>a || b\<close> on values that are \<open>undefined\<close> or an object.\<close>

definition js_or :: "'a option \<Rightarrow> 'a option \<Rightarrow> 'a option" where
  "js_or a b = (case a of Some x \<Rightarrow> Some x | None \<Rightarrow> b)"

text \<open>\<open>getOriginRect\<close> (lines 64 to 74) returns the snapshot and writes both cache refs.\<close>

definition getOriginRect :: "Refs \<Rightarrow> hook_state \<Rightarrow> IRectData \<times> hook_state" where
  "getOriginRect refs st =
     (let container_rect = js_or (containerRectRef st) (containerRef refs);
          st1 = st\<lparr>containerRectRef := container_rect\<rparr>;
          child_rect = js_or (childRectRef st1) (childRef refs);
          st2 = st1\<lparr>childRectRef := child_rect\<rparr>
      in (\<lparr>originConatinerRect = container_rect, originChildRect = child_rect\<rparr>, st2))"

text \<open>\<open>handleMove\<close> (lines 76 to 101), the \<open>mousemove\<close> listener of the document.\<close>

definition handleMove :: "customTrans_fn \<Rightarrow> Refs \<Rightarrow> MouseEvent \<Rightarrow> hook_state \<Rightarrow> hook_state" where
  "handleMove customTrans refs e st =
     (if \<not> mousedownLock st then st
      else
        let transXY0 = transXY (transformConfigRef st);
            deltaXY = (js_sub (clientX e) (fst (mouseXY st)), js_sub (clientY e) (snd (mouseXY st)));
            st1 = st\<lparr>mouseXY := (clientX e, clientY e)\<rparr>;
            prev = transformConfigRef st1;
            v = prev\<lparr>transXY := (js_add (fst transXY0) (fst deltaXY),
                                  js_add (snd transXY0) (snd deltaXY))\<rparr>;
            (rect, st2) = getOriginRect refs st1;
            customTransRes = customTrans prev v rect MOVE
        in setTransXY (transXY customTransRes) st2)"

text \<open>The constant \<open>direc\<close> of line 115.\<close>

definition direc :: "WheelEvent \<Rightarrow> number" where
  "direc e = (if js_gt (deltaY e) (Zero False) then Fin (- 1) else Fin 1)"

text \<open>\<open>handleGesture\<close> (lines 103 to 161), the \<open>wheel\<close> listener of the container.\<close>

definition handleGesture ::
  "number \<Rightarrow> customTrans_fn \<Rightarrow> Refs \<Rightarrow> WheelEvent \<Rightarrow> hook_state \<Rightarrow> hook_state" where
  "handleGesture scaleStep customTrans refs e st =
     (if js_strict_eq (deltaY e) (Zero False) then st
      else if mousedownLock st then st
      else
        case (containerRef refs, childRef refs) of
          (Some container, Some childRect) \<Rightarrow>
            let childCenter = (js_add (left childRect) (js_div (width childRect) (Fin 2)),
                               js_add (top_y childRect) (js_div (height childRect) (Fin 2)));
                targetPoint = (clientX e, clientY e);
                prev = transformConfigRef st;
                deltaOffset =
                  (js_mul (js_div (js_mul (js_sub (fst targetPoint) (fst childCenter)) (direc e))
                             (scale prev)) scaleStep,
                   js_mul (js_div (js_mul (js_sub (snd targetPoint) (snd childCenter)) (direc e))
                             (scale prev)) scaleStep);
                v = \<lparr>transXY = (js_sub (fst (transXY prev)) (fst deltaOffset),
                                js_sub (snd (transXY prev)) (snd deltaOffset)),
                     scale = js_add (scale prev) (js_mul (direc e) scaleStep),
                     rotate_deg = rotate_deg prev\<rparr>;
                (rect, st1) = getOriginRect refs st;
                customTransRes = customTrans prev v rect SCALE
            in setRotate (rotate_deg customTransRes)
                 (setTransXY (transXY customTransRes)
                   (setScale (scale customTransRes) st1))
        | _ \<Rightarrow> st)"

text \<open>\<open>handleMouseDown\<close> and \<open>handleMouseUp\<close> (lines 179 to 186).\<close>

definition handleMouseDown :: "MouseEvent \<Rightarrow> hook_state \<Rightarrow> hook_state" where
  "handleMouseDown e st = st\<lparr>mousedownLock := True, mouseXY := (clientX e, clientY e)\<rparr>"

definition handleMouseUp :: "hook_state \<Rightarrow> hook_state" where
  "handleMouseUp st = st\<lparr>mousedownLock := False\<rparr>"

text \<open>The template literal of line 201, on the values of the last render (those the ref
  holds). The conversion of a number to a string is the runtime's (\<open>Number::toString\<close>),
  so it is the parameter \<open>toString\<close>.\<close>

definition transform :: "(number \<Rightarrow> string) \<Rightarrow> hook_state \<Rightarrow> string" where
  "transform toString st =
     ''translateX('' @ toString (fst (transXY (transformConfigRef st))) @
     ''px) translateY('' @ toString (snd (transXY (transformConfigRef st))) @
     ''px) rotate('' @ toString (rotate_deg (transformConfigRef st)) @
     ''deg) scale('' @ toString (scale (transformConfigRef st)) @ '')''"

section \<open>Everything that can happen to the hook\<close>

text \<open>The four listeners, the three setters handed to the caller, and a render. An event
  comes with the layout of the moment it is handled.\<close>

datatype event =
  Mousedown MouseEvent
  | Mousemove MouseEvent
  | Mouseup
  | Wheel WheelEvent
  | SetTransXY "number \<times> number"
  | SetScale number
  | SetRotate number
  | Render

fun dispatch :: "number \<Rightarrow> customTrans_fn \<Rightarrow> Refs \<times> event \<Rightarrow> hook_state \<Rightarrow> hook_state" where
  "dispatch scaleStep customTrans (refs, Mousedown e) st = handleMouseDown e st"
| "dispatch scaleStep customTrans (refs, Mousemove e) st = handleMove customTrans refs e st"
| "dispatch scaleStep customTrans (refs, Mouseup) st = handleMouseUp st"
| "dispatch scaleStep customTrans (refs, Wheel e) st = handleGesture scaleStep customTrans refs e st"
| "dispatch scaleStep customTrans (refs, SetTransXY p) st = setTransXY p st"
| "dispatch scaleStep customTrans (refs, SetScale s) st = setScale s st"
| "dispatch scaleStep customTrans (refs, SetRotate r) st = setRotate r st"
| "dispatch scaleStep customTrans (refs, Render) st = render st"

definition run :: "number \<Rightarrow> customTrans_fn \<Rightarrow> (Refs \<times> event) list \<Rightarrow> hook_state \<Rightarrow> hook_state" where
  "run scaleStep customTrans evs st = fold (dispatch scaleStep customTrans) evs st"

text \<open>Both elements are mounted: the condition \<open>container && child\<close> under which the
  hook attaches its listeners.\<close>

definition mounted :: "Refs \<Rightarrow> bool" where
  "mounted refs = (containerRef refs \<noteq> None \<and> childRef refs \<noteq> None)"

text \<open>The correction function of the specification's example: it clamps the scale to
  the interval from 0.5 to 2 and changes nothing else.\<close>

definition clampScale :: customTrans_fn where
  "clampScale prev v rect action =
     v\<lparr>scale := (if js_gt (scale v) (Fin 2) then Fin 2
                  else if js_gt (Fin (1 / 2)) (scale v) then Fin (1 / 2)
                  else scale v)\<rparr>"

text \<open>A drag in which the hook renders after every move.\<close>

definition renderedMoves :: "(Refs \<times> MouseEvent) list \<Rightarrow> (Refs \<times> event) list" where
  "renderedMoves moves = concat (map (\<lambda>(refs, e). [(refs, Mousemove e), (refs, Render)]) moves)"

text \<open>The specification's sum of pointer deltas, for the comparison with \<open>handleMove\<close>: each
  delta is the position of a move minus the position recorded before it, and the deltas
  are added to the translation one after the other, in double arithmetic.\<close>

fun addDeltas :: "number \<times> number \<Rightarrow> number \<times> number \<Rightarrow> MouseEvent list \<Rightarrow> number \<times> number" where
  "addDeltas t recorded [] = t"
| "addDeltas t recorded (e # es) =
     addDeltas (js_add (fst t) (js_sub (clientX e) (fst recorded)),
                js_add (snd t) (js_sub (clientY e) (snd recorded)))
               (clientX e, clientY e) es"

text \<open>The double that is the integer \<open>n\<close>, and the pointer deltas of integer positions
  with their exact sum, for the drags in which nothing is rounded.\<close>

definition of_integer :: "int \<Rightarrow> number" where
  "of_integer n = (if n = 0 then Zero False else Fin (of_int n))"

fun intDeltas :: "int \<Rightarrow> int list \<Rightarrow> int list" where
  "intDeltas recorded [] = []"
| "intDeltas recorded (x # xs) = (x - recorded) # intDeltas x xs"

section \<open>What the arithmetic computes\<close>

lemma js_gt_zero_not_eq:
  assumes "js_gt x (Zero False)"
  shows "\<not> js_strict_eq x (Zero False)"
  using assms by (cases x) auto

lemma js_neg_fl_value: "js_neg (fl_value s e m v) = fl_value (\<not> s) e m v"
  by (simp add: fl_value_def)

lemma js_neg_fl_pos: "js_neg (fl_pos s q) = fl_pos (\<not> s) q"
  by (simp only: fl_pos_def fl_exp_def fl_mant_def js_neg_fl_value)

lemma fl_minus:
  assumes "q \<noteq> 0"
  shows "fl (- q) = js_neg (fl q)"
  using assms by (simp add: fl_def js_neg_fl_pos)

lemma js_mul_one:
  assumes "is_double x"
  shows "js_mul (Fin 1) x = x"
proof (cases x)
  case (Fin q)
  with assms have d: "fl q = Fin q" by (simp add: is_double_def)
  then have "q \<noteq> 0" by (auto simp: fl_def)
  with d show ?thesis by (simp add: Fin)
qed simp_all

lemma js_mul_minus_one:
  assumes "is_double x"
  shows "js_mul (Fin (- 1)) x = js_neg x"
proof (cases x)
  case (Fin q)
  with assms have d: "fl q = Fin q" by (simp add: is_double_def)
  then have "q \<noteq> 0" by (auto simp: fl_def)
  with d show ?thesis by (simp add: Fin fl_minus)
qed simp_all


text \<open>
  An integer below \<open>2^53\<close> in magnitude is a double, so sums and differences of such
  integers that stay below \<open>2^53\<close> are computed without rounding.
\<close>

lemma pow2_nonneg_exp: "0 \<le> k \<Longrightarrow> pow2 k = 2 ^ nat k"
  by (simp add: pow2_def)

lemma ilog2_of_int:
  assumes "0 < n"
  shows "ilog2 (of_int n) = bitlen n - 1"
proof -
  from assms have b: "2 ^ nat (bitlen n - 1) \<le> n" using bitlen_bounds [of n] by simp
  from assms have k: "0 \<le> bitlen n - 1" by (simp add: bitlen_alt_def)
  have "pow2 (bitlen n - 1) \<le> of_int n"
  proof -
    have "(of_int (2 ^ nat (bitlen n - 1)) :: rat) \<le> of_int n"
      using b by (simp only: of_int_le_iff)
    then show ?thesis by (simp add: pow2_nonneg_exp [OF k])
  qed
  moreover have "bitlen 1 = 1" by (simp add: bitlen_alt_def)
  ultimately show ?thesis
    by (simp add: ilog2_def ilog2_from_def)
qed

lemma bitlen_small:
  assumes "0 < n" and "n < 2 ^ 53"
  shows "bitlen n \<le> 53"
proof (rule ccontr)
  assume "\<not> bitlen n \<le> 53"
  then have "53 \<le> nat (bitlen n - 1)" by simp
  then have "(2::int) ^ 53 \<le> 2 ^ nat (bitlen n - 1)"
    by (rule power_increasing) simp
  also have "\<dots> \<le> n" using bitlen_bounds [of n] assms(1) by simp
  finally show False using assms(2) by simp
qed

lemma round_half_even_int: "round_half_even (of_int m) = m"
  by (simp add: round_half_even_def half_even_def)

lemma fl_of_int_pos:
  assumes "0 < n" and "n < 2 ^ 53"
  shows "fl (of_int n) = Fin (of_int n)"
proof -
  define d where "d = nat (53 - bitlen n)"
  from assms have le: "bitlen n \<le> 53" by (rule bitlen_small)
  have e: "max (ilog2 (of_int n) - 52) (- 1074) = - int d"
    using le assms(1) by (simp add: ilog2_of_int d_def bitlen_nonneg)
  have p: "pow2 (- int d) = 1 / 2 ^ d"
    by (auto simp: pow2_def)
  have q: "(of_int n :: rat) / pow2 (- int d) = of_int (n * 2 ^ d)"
    by (simp add: p)
  have v: "(of_int (n * 2 ^ d) :: rat) * pow2 (- int d) = of_int n"
    by (simp add: p)
  have nz: "n * 2 ^ d \<noteq> 0" using assms(1) by simp
  show ?thesis
    using assms(1) nz
    by (simp add: fl_def fl_pos_def fl_exp_def fl_mant_def fl_value_def e q v
        round_half_even_int del: of_int_mult of_int_power)
qed

lemma fl_of_int:
  assumes "\<bar>n\<bar> < 2 ^ 53"
  shows "fl (of_int n) = of_integer n"
proof -
  consider "n = 0" | "0 < n" | "n < 0" by linarith
  then show ?thesis
  proof cases
    case 1
    then show ?thesis by (simp add: fl_def of_integer_def)
  next
    case 2
    with assms show ?thesis by (simp add: fl_of_int_pos of_integer_def)
  next
    case 3
    with assms have "fl (of_int (- n)) = Fin (of_int (- n))"
      by (intro fl_of_int_pos) simp_all
    moreover from 3 have "fl (of_int n) = js_neg (fl (of_int (- n)))"
      using fl_minus [of "of_int (- n)"] by simp
    ultimately show ?thesis using 3 by (simp add: of_integer_def)
  qed
qed

lemma js_add_integers:
  assumes "\<bar>a + b\<bar> < 2 ^ 53"
  shows "js_add (of_integer a) (of_integer b) = of_integer (a + b)"
proof -
  have "fl (of_int a + of_int b) = of_integer (a + b)"
    using fl_of_int [OF assms] by simp
  then show ?thesis
    by (auto simp: of_integer_def)
qed

lemma js_sub_integers:
  assumes "\<bar>a - b\<bar> < 2 ^ 53"
  shows "js_sub (of_integer a) (of_integer b) = of_integer (a - b)"
proof -
  have "fl (of_int a - of_int b) = of_integer (a - b)"
    using fl_of_int [OF assms] by simp
  then show ?thesis
    by (auto simp: of_integer_def js_sub_def)
qed

lemma addDeltas_integers:
  assumes "\<bar>tx - mx\<bar> \<le> 2 ^ 51" and "\<bar>ty - my\<bar> \<le> 2 ^ 51"
    and "\<bar>mx\<bar> \<le> 2 ^ 50" and "\<bar>my\<bar> \<le> 2 ^ 50"
    and "\<forall>p \<in> set ps. \<bar>fst p\<bar> \<le> 2 ^ 50 \<and> \<bar>snd p\<bar> \<le> 2 ^ 50"
  shows "addDeltas (of_integer tx, of_integer ty) (of_integer mx, of_integer my)
           (map (\<lambda>p. \<lparr>clientX = of_integer (fst p), clientY = of_integer (snd p)\<rparr>) ps) =
         (of_integer (tx + sum_list (intDeltas mx (map fst ps))),
          of_integer (ty + sum_list (intDeltas my (map snd ps))))"
  using assms
proof (induction ps arbitrary: tx ty mx my)
  case Nil
  show ?case by simp
next
  case (Cons p ps)
  obtain x y where p: "p = (x, y)" by (cases p)
  from Cons.prems(5) have bx: "\<bar>x\<bar> \<le> 2 ^ 50" and by': "\<bar>y\<bar> \<le> 2 ^ 50"
    and rest: "\<forall>p \<in> set ps. \<bar>fst p\<bar> \<le> 2 ^ 50 \<and> \<bar>snd p\<bar> \<le> 2 ^ 50"
    by (simp_all add: p)
  have dx: "js_sub (of_integer x) (of_integer mx) = of_integer (x - mx)"
    using bx Cons.prems(3) by (intro js_sub_integers) simp
  have dy: "js_sub (of_integer y) (of_integer my) = of_integer (y - my)"
    using by' Cons.prems(4) by (intro js_sub_integers) simp
  have ax: "js_add (of_integer tx) (of_integer (x - mx)) = of_integer (tx + (x - mx))"
    using bx Cons.prems(1) by (intro js_add_integers) simp
  have ay: "js_add (of_integer ty) (of_integer (y - my)) = of_integer (ty + (y - my))"
    using by' Cons.prems(2) by (intro js_add_integers) simp
  have ix: "\<bar>(tx + (x - mx)) - x\<bar> \<le> 2 ^ 51" using Cons.prems(1) by simp
  have iy: "\<bar>(ty + (y - my)) - y\<bar> \<le> 2 ^ 51" using Cons.prems(2) by simp
  from Cons.IH [OF ix iy bx by' rest]
  show ?case
    by (simp add: p dx dy ax ay add.assoc)
qed

text \<open>
  Rounding moves a result by half a unit in the last place at most.
\<close>

lemma pow2_powi: "pow2 e = 2 powi e"
  by (simp add: pow2_def power_int_def field_simps)

lemma pow2_pos: "0 < pow2 e"
  by (simp add: pow2_powi)

lemma pow2_add: "pow2 (a + b) = pow2 a * pow2 b"
  by (simp add: pow2_powi power_int_add)

lemma round_half_even_error: "\<bar>of_int (round_half_even t) - t\<bar> \<le> 1 / 2"
proof -
  have "of_int \<lfloor>t\<rfloor> \<le> t" "t < of_int \<lfloor>t\<rfloor> + 1" by linarith+
  then show ?thesis
    by (auto simp: round_half_even_def half_even_def abs_le_iff)
qed

lemma quotient_of_pos:
  assumes "0 < q" and "quotient_of q = (n, d)"
  shows "0 < n" and "0 < d" and "q = of_int n / of_int d"
proof -
  show d: "0 < d" using assms(2) by (rule quotient_of_denom_pos)
  show q: "q = of_int n / of_int d" using assms(2) by (rule quotient_of_div)
  show "0 < n" using assms(1) d q by (simp add: zero_less_divide_iff)
qed

lemma ilog2_le:
  assumes "0 < q"
  shows "pow2 (ilog2 q) \<le> q"
proof -
  obtain n d where nd: "quotient_of q = (n, d)" by (cases "quotient_of q")
  from quotient_of_pos [OF assms nd] have n: "0 < n" and d: "0 < d"
    and q: "q = of_int n / of_int d" by simp_all
  let ?k = "bitlen n - bitlen d"
  have "pow2 (?k - 1) \<le> q"
  proof -
    have bn: "2 ^ nat (bitlen n - 1) \<le> n" using bitlen_bounds [OF n] by simp
    have bd: "d < 2 ^ nat (bitlen d)" using bitlen_bounds [OF d] by simp
    have kn: "0 \<le> bitlen n - 1" using n by (simp add: bitlen_alt_def)
    have kd: "0 \<le> bitlen d" by (rule bitlen_nonneg)
    have "(of_int (2 ^ nat (bitlen n - 1)) :: rat) \<le> of_int n"
      using bn by (simp only: of_int_le_iff)
    then have 1: "pow2 (bitlen n - 1) \<le> of_int n"
      using kn by (simp add: pow2_def)
    have "(of_int d :: rat) \<le> of_int (2 ^ nat (bitlen d))"
      using bd by (simp only: of_int_le_iff)
    then have 2: "of_int d \<le> pow2 (bitlen d)"
      using kd by (simp add: pow2_def)
    have "pow2 (?k - 1) * of_int d \<le> pow2 (?k - 1) * pow2 (bitlen d)"
      using 2 pow2_pos [of "?k - 1"] by (intro mult_left_mono) simp_all
    also have "\<dots> = pow2 (bitlen n - 1)"
      by (simp add: pow2_add [symmetric])
    also have "\<dots> \<le> of_int n"
      by (rule 1)
    finally show ?thesis
      using d by (simp add: q pos_le_divide_eq)
  qed
  then show ?thesis
    using nd by (simp add: ilog2_def ilog2_from_def)
qed

lemma fl_exp_error:
  assumes "fl_exp s q e = Fin v"
  shows "\<bar>(if s then - v else v) - q\<bar> \<le> pow2 e * (1 / 2)"
proof -
  let ?m = "round_half_even (q / pow2 e)"
  from assms have v: "(if s then - v else v) = of_int ?m * pow2 e"
    by (auto simp: fl_exp_def fl_mant_def fl_value_def split: if_splits)
  have "of_int ?m * pow2 e - q = (of_int ?m - q / pow2 e) * pow2 e"
    using pow2_pos [of e] by (simp add: field_simps)
  then have "\<bar>of_int ?m * pow2 e - q\<bar> = \<bar>of_int ?m - q / pow2 e\<bar> * pow2 e"
    using pow2_pos [of e] by (simp add: abs_mult)
  also have "\<dots> \<le> (1 / 2) * pow2 e"
    using round_half_even_error [of "q / pow2 e"] pow2_pos [of e]
    by (intro mult_right_mono) simp_all
  finally show ?thesis by (simp add: v)
qed

lemma fl_pos_error:
  assumes "0 < q" and "fl_pos s q = Fin v"
  shows "\<bar>(if s then - v else v) - q\<bar> \<le> rounding_bound q"
proof -
  let ?e = "max (ilog2 q - 52) (- 1074)"
  from assms(2) have "fl_exp s q ?e = Fin v" by (simp add: fl_pos_def)
  then have err: "\<bar>(if s then - v else v) - q\<bar> \<le> pow2 ?e * (1 / 2)"
    by (rule fl_exp_error)
  have half: "pow2 k * (1 / 2) = pow2 (k - 1)" for k
    using pow2_add [of k "- 1"] by (simp add: pow2_def)
  have "pow2 ?e * (1 / 2) \<le> rounding_bound q"
  proof (cases "- 1074 \<le> ilog2 q - 52")
    case True
    then have e: "?e = ilog2 q - 52" by simp
    have "pow2 ?e * (1 / 2) = pow2 (ilog2 q + - 53)"
      by (simp only: e half) simp
    also have "\<dots> = pow2 (ilog2 q) * pow2 (- 53)"
      by (rule pow2_add)
    also have "\<dots> \<le> q * pow2 (- 53)"
      using ilog2_le [OF assms(1)] pow2_pos [of "- 53"] by (intro mult_right_mono) simp_all
    finally show ?thesis using assms(1) by (simp add: rounding_bound_def)
  next
    case False
    then have e: "?e = - 1074" by simp
    have "pow2 ?e * (1 / 2) = pow2 (- 1075)"
      by (simp only: e half) simp
    then show ?thesis by (simp add: rounding_bound_def)
  qed
  with err show ?thesis by simp
qed

lemma fl_error:
  assumes "fl q = Fin v"
  shows "\<bar>v - q\<bar> \<le> rounding_bound q"
proof -
  consider "q = 0" | "0 < q" | "q < 0" by linarith
  then show ?thesis
  proof cases
    case 1
    with assms show ?thesis by (simp add: fl_def)
  next
    case 2
    with assms have "fl_pos False q = Fin v" by (simp add: fl_def)
    from fl_pos_error [OF 2 this] show ?thesis by simp
  next
    case 3
    with assms have "fl_pos True (- q) = Fin v" by (simp add: fl_def)
    from fl_pos_error [OF _ this] 3 have "\<bar>- v - - q\<bar> \<le> rounding_bound (- q)" by simp
    moreover have "\<bar>- v - - q\<bar> = \<bar>v - q\<bar>" by simp
    ultimately show ?thesis by (simp add: rounding_bound_def)
  qed
qed

lemma js_add_error:
  assumes "js_add x y = Fin c"
  shows "\<bar>c - (val x + val y)\<bar> \<le> rounding_bound (val x + val y)"
proof -
  from assms have "fl (val x + val y) = Fin c"
    by (cases x; cases y) (simp_all split: if_splits)
  then show ?thesis by (rule fl_error)
qed

lemma val_js_neg: "val (js_neg y) = - val y"
  by (cases y) simp_all

lemma js_sub_error:
  assumes "js_sub x y = Fin c"
  shows "\<bar>c - (val x - val y)\<bar> \<le> rounding_bound (val x - val y)"
  using js_add_error [of x "js_neg y" c] assms by (simp add: js_sub_def val_js_neg)

section \<open>What the handlers compute\<close>

lemma getOriginRect_frame [simp]:
  "cells (snd (getOriginRect refs st)) = cells st"
  "transformConfigRef (snd (getOriginRect refs st)) = transformConfigRef st"
  "mousedownLock (snd (getOriginRect refs st)) = mousedownLock st"
  "mouseXY (snd (getOriginRect refs st)) = mouseXY st"
  by (simp_all add: getOriginRect_def Let_def)

lemma getOriginRect_cache:
  "containerRectRef (snd (getOriginRect refs st)) = js_or (containerRectRef st) (containerRef refs)"
  "childRectRef (snd (getOriginRect refs st)) = js_or (childRectRef st) (childRef refs)"
  "fst (getOriginRect refs st) =
     \<lparr>originConatinerRect = js_or (containerRectRef st) (containerRef refs),
      originChildRect = js_or (childRectRef st) (childRef refs)\<rparr>"
  by (simp_all add: getOriginRect_def Let_def)

text \<open>The three set-state calls of lines 155 to 157 together store the whole result.\<close>

lemma commit_all:
  "setRotate (rotate_deg res) (setTransXY (transXY res) (setScale (scale res) st)) =
   st\<lparr>cells := res\<rparr>"
  by (simp add: setRotate_def setTransXY_def setScale_def)

lemma handleGesture_processed:
  assumes "\<not> mousedownLock st" and "\<not> js_strict_eq (deltaY e) (Zero False)"
    and "containerRef refs = Some container" and "childRef refs = Some child"
  shows "handleGesture scaleStep customTrans refs e st =
    (snd (getOriginRect refs st))\<lparr>cells :=
      customTrans (transformConfigRef st)
        \<lparr>transXY =
           (js_sub (fst (transXY (transformConfigRef st)))
              (js_mul (js_div (js_mul (js_sub (clientX e)
                   (js_add (left child) (js_div (width child) (Fin 2)))) (direc e))
                 (scale (transformConfigRef st))) scaleStep),
            js_sub (snd (transXY (transformConfigRef st)))
              (js_mul (js_div (js_mul (js_sub (clientY e)
                   (js_add (top_y child) (js_div (height child) (Fin 2)))) (direc e))
                 (scale (transformConfigRef st))) scaleStep)),
         scale = js_add (scale (transformConfigRef st)) (js_mul (direc e) scaleStep),
         rotate_deg = rotate_deg (transformConfigRef st)\<rparr>
        (fst (getOriginRect refs st)) SCALE\<rparr>"
  using assms
  by (simp add: handleGesture_def Let_def commit_all split_def)

lemma handleMove_dragging:
  assumes "mousedownLock st"
  shows "handleMove customTrans refs e st =
    (snd (getOriginRect refs (st\<lparr>mouseXY := (clientX e, clientY e)\<rparr>)))\<lparr>cells :=
      (cells st)\<lparr>transXY := transXY
        (customTrans (transformConfigRef st)
          ((transformConfigRef st)\<lparr>transXY :=
             (js_add (fst (transXY (transformConfigRef st))) (js_sub (clientX e) (fst (mouseXY st))),
              js_add (snd (transXY (transformConfigRef st))) (js_sub (clientY e) (snd (mouseXY st))))\<rparr>)
          (fst (getOriginRect refs (st\<lparr>mouseXY := (clientX e, clientY e)\<rparr>))) MOVE)\<rparr>\<rparr>"
  using assms
  by (simp add: handleMove_def Let_def setTransXY_def split_def)

lemma mounted_cases:
  assumes "mounted refs"
  obtains container child where "containerRef refs = Some container" and "childRef refs = Some child"
  using assms by (auto simp: mounted_def)

lemma handleGesture_lock [simp]:
  "mousedownLock (handleGesture scaleStep customTrans refs e st) = mousedownLock st"
  by (simp add: handleGesture_def Let_def split_def commit_all split: option.splits)

lemma handleMove_lock [simp]:
  "mousedownLock (handleMove customTrans refs e st) = mousedownLock st"
  by (simp add: handleMove_def Let_def split_def setTransXY_def)

lemma render_frame [simp]:
  "mousedownLock (render st) = mousedownLock st"
  "mouseXY (render st) = mouseXY st"
  "cells (render st) = cells st"
  "transformConfigRef (render st) = cells st"
  "containerRectRef (render st) = containerRectRef st"
  "childRectRef (render st) = childRectRef st"
  by (simp_all add: render_def)

lemma run_Nil: "run scaleStep customTrans [] st = st"
  by (simp add: run_def)

lemma run_Cons:
  "run scaleStep customTrans (ev # evs) st =
   run scaleStep customTrans evs (dispatch scaleStep customTrans ev st)"
  by (simp add: run_def)

lemma direc_values:
  "direc e = (if js_gt (deltaY e) (Zero False) then Fin (- 1) else Fin 1)"
  "direc e = Fin 1 \<or> direc e = Fin (- 1)"
  by (simp_all add: direc_def)

lemma handleGesture_default_scale:
  assumes "\<not> mousedownLock st" and "\<not> js_strict_eq (deltaY e) (Zero False)" and "mounted refs"
  shows "scale (cells (handleGesture scaleStep defaultCustomTrans refs e st)) =
         js_add (scale (transformConfigRef st)) (js_mul (direc e) scaleStep)"
proof -
  from \<open>mounted refs\<close> obtain container child
    where "containerRef refs = Some container" and "childRef refs = Some child"
    by (rule mounted_cases)
  with assms(1,2) show ?thesis
    by (simp add: handleGesture_processed defaultCustomTrans_def)
qed

lemma handleMove_default:
  assumes "mousedownLock st"
  shows "mouseXY (handleMove defaultCustomTrans refs e st) = (clientX e, clientY e)"
    and "transXY (cells (handleMove defaultCustomTrans refs e st)) =
           (js_add (fst (transXY (transformConfigRef st))) (js_sub (clientX e) (fst (mouseXY st))),
            js_add (snd (transXY (transformConfigRef st))) (js_sub (clientY e) (snd (mouseXY st))))"
  using assms by (simp_all add: handleMove_dragging defaultCustomTrans_def)

lemma rendered_drag:
  assumes "mousedownLock st"
  shows "transXY (transformConfigRef (run scaleStep defaultCustomTrans (renderedMoves moves) st)) =
         addDeltas (transXY (transformConfigRef st)) (mouseXY st) (map snd moves)"
  using assms
proof (induction moves arbitrary: st)
  case Nil
  show ?case by (simp add: run_Nil renderedMoves_def)
next
  case (Cons m moves)
  obtain refs e where m: "m = (refs, e)" by (cases m)
  let ?st1 = "render (handleMove defaultCustomTrans refs e st)"
  have lock1: "mousedownLock ?st1"
    using Cons.prems by simp
  have step: "run scaleStep defaultCustomTrans (renderedMoves ((refs, e) # moves)) st =
      run scaleStep defaultCustomTrans (renderedMoves moves) ?st1"
    by (simp add: renderedMoves_def run_Cons)
  show ?case
    using Cons.IH [OF lock1]
    by (simp add: step m handleMove_default [OF Cons.prems])
qed

lemma js_or_Some [simp]: "js_or (Some x) b = Some x"
  by (simp add: js_or_def)

lemma js_or_None [simp]: "js_or None b = b"
  by (simp add: js_or_def)

lemma setters_cache [simp]:
  "containerRectRef (setTransXY p st) = containerRectRef st"
  "childRectRef (setTransXY p st) = childRectRef st"
  "containerRectRef (setScale s st) = containerRectRef st"
  "childRectRef (setScale s st) = childRectRef st"
  "containerRectRef (setRotate r st) = containerRectRef st"
  "childRectRef (setRotate r st) = childRectRef st"
  by (simp_all add: setTransXY_def setScale_def setRotate_def)

lemma handleMove_captures:
  assumes "mousedownLock st"
  shows "containerRectRef (handleMove customTrans refs e st) =
           js_or (containerRectRef st) (containerRef refs)"
    and "childRectRef (handleMove customTrans refs e st) =
           js_or (childRectRef st) (childRef refs)"
  using assms by (simp_all add: handleMove_dragging getOriginRect_cache)

lemma handleGesture_captures:
  assumes "\<not> mousedownLock st" and "\<not> js_strict_eq (deltaY e) (Zero False)" and "mounted refs"
  shows "containerRectRef (handleGesture scaleStep customTrans refs e st) =
           js_or (containerRectRef st) (containerRef refs)"
    and "childRectRef (handleGesture scaleStep customTrans refs e st) =
           js_or (childRectRef st) (childRef refs)"
proof -
  from \<open>mounted refs\<close> obtain container child
    where r: "containerRef refs = Some container" "childRef refs = Some child"
    by (rule mounted_cases)
  show "containerRectRef (handleGesture scaleStep customTrans refs e st) =
           js_or (containerRectRef st) (containerRef refs)"
    by (simp add: handleGesture_processed [OF assms(1,2) r] getOriginRect_cache)
  show "childRectRef (handleGesture scaleStep customTrans refs e st) =
           js_or (childRectRef st) (childRef refs)"
    by (simp add: handleGesture_processed [OF assms(1,2) r] getOriginRect_cache)
qed

lemma dispatch_container_cache:
  assumes "containerRectRef st = Some c"
  shows "containerRectRef (dispatch scaleStep customTrans ev st) = Some c"
proof -
  obtain refs a where ev: "ev = (refs, a)" by (cases ev)
  show ?thesis
    using assms
    by (cases a)
      (simp_all add: ev handleMove_def handleGesture_def Let_def split_def getOriginRect_cache
        handleMouseDown_def handleMouseUp_def split: option.splits)
qed

lemma dispatch_child_cache:
  assumes "childRectRef st = Some ch"
  shows "childRectRef (dispatch scaleStep customTrans ev st) = Some ch"
proof -
  obtain refs a where ev: "ev = (refs, a)" by (cases ev)
  show ?thesis
    using assms
    by (cases a)
      (simp_all add: ev handleMove_def handleGesture_def Let_def split_def getOriginRect_cache
        handleMouseDown_def handleMouseUp_def split: option.splits)
qed

lemma run_container_cache:
  assumes "containerRectRef st = Some c"
  shows "containerRectRef (run scaleStep customTrans evs st) = Some c"
  using assms
proof (induction evs arbitrary: st)
  case Nil
  then show ?case by (simp add: run_Nil)
next
  case (Cons ev evs)
  from dispatch_container_cache [OF Cons.prems, of scaleStep customTrans ev]
  show ?case by (simp add: run_Cons Cons.IH)
qed

lemma run_child_cache:
  assumes "childRectRef st = Some ch"
  shows "childRectRef (run scaleStep customTrans evs st) = Some ch"
  using assms
proof (induction evs arbitrary: st)
  case Nil
  then show ?case by (simp add: run_Nil)
next
  case (Cons ev evs)
  from dispatch_child_cache [OF Cons.prems, of scaleStep customTrans ev]
  show ?case by (simp add: run_Cons Cons.IH)
qed

section \<open>The proposal of a wheel event\<close>

text \<open>
  Claim C1. A wheel event that is processed (no drag session, a vertical delta other than
  zero, both elements mounted) hands the correction function the state of the last
  render, the proposal below, the rect snapshot and the action \<open>SCALE\<close>, and the three state
  cells are set to what the function returns. The proposal has the scale
  \<open>scale + direction * scaleStep\<close>, the translation minus the offset, where the offset is
  \<open>(pointer - centre of the child) * direction / scale * scaleStep\<close> in each coordinate,
  and the rotation as it was.
\<close>

theorem wheel_proposal:
  assumes "\<not> mousedownLock st" and "\<not> js_strict_eq (deltaY e) (Zero False)"
    and "containerRef refs = Some container" and "childRef refs = Some child"
  shows
    "let prev = transformConfigRef st;
         direction = (if js_gt (deltaY e) (Zero False) then Fin (- 1) else Fin 1);
         center = (js_add (left child) (js_div (width child) (Fin 2)),
                   js_add (top_y child) (js_div (height child) (Fin 2)));
         offset = (js_mul (js_div (js_mul (js_sub (clientX e) (fst center)) direction) (scale prev))
                     scaleStep,
                   js_mul (js_div (js_mul (js_sub (clientY e) (snd center)) direction) (scale prev))
                     scaleStep);
         proposed = \<lparr>transXY = (js_sub (fst (transXY prev)) (fst offset),
                                js_sub (snd (transXY prev)) (snd offset)),
                     scale = js_add (scale prev) (js_mul direction scaleStep),
                     rotate_deg = rotate_deg prev\<rparr>
     in cells (handleGesture scaleStep customTrans refs e st) =
          customTrans prev proposed (fst (getOriginRect refs st)) SCALE"
  using handleGesture_processed [OF assms, of scaleStep customTrans]
  by (simp add: Let_def direc_def)

text \<open>
  The pointer at (250, 180) over a child centred at (200, 150), zooming in from the
  first render with step 0.1: the offset is (5, 3) and the scale 1.1.
\<close>

theorem wheel_proposal_witness:
  "\<not> mousedownLock useFreeScale \<and>
   \<not> js_strict_eq (deltaY \<lparr>clientX = Fin 250, clientY = Fin 180, deltaY = Fin (- 120)\<rparr>) (Zero False) \<and>
   cells
     (handleGesture (fl (1 / 10)) clampScale
        \<lparr>containerRef = Some \<lparr>left = Zero False, top_y = Zero False, width = Fin 400, height = Fin 300\<rparr>,
         childRef = Some \<lparr>left = Fin 100, top_y = Fin 100, width = Fin 200, height = Fin 100\<rparr>\<rparr>
        \<lparr>clientX = Fin 250, clientY = Fin 180, deltaY = Fin (- 120)\<rparr> useFreeScale) =
   \<lparr>transXY = (Fin (- 5), Fin (- 3)), scale = Fin (2476979795053773 / 2251799813685248),
    rotate_deg = Zero False\<rparr>"
proof -
  let ?container = "\<lparr>left = Zero False, top_y = Zero False, width = Fin 400, height = Fin 300\<rparr>"
  let ?child = "\<lparr>left = Fin 100, top_y = Fin 100, width = Fin 200, height = Fin 100\<rparr>"
  let ?refs = "\<lparr>containerRef = Some ?container, childRef = Some ?child\<rparr>"
  let ?e = "\<lparr>clientX = Fin 250, clientY = Fin 180, deltaY = Fin (- 120)\<rparr>"
  have h1: "\<not> mousedownLock useFreeScale" by (simp add: useFreeScale_def)
  have h2: "\<not> js_strict_eq (deltaY ?e) (Zero False)" by simp
  have h3: "containerRef ?refs = Some ?container" by simp
  have h4: "childRef ?refs = Some ?child" by simp
  have proposal:
    "(let prev = transformConfigRef useFreeScale;
         direction = (if js_gt (deltaY ?e) (Zero False) then Fin (- 1) else Fin 1);
         center = (js_add (left ?child) (js_div (width ?child) (Fin 2)),
                   js_add (top_y ?child) (js_div (height ?child) (Fin 2)));
         offset = (js_mul (js_div (js_mul (js_sub (clientX ?e) (fst center)) direction) (scale prev))
                     (fl (1 / 10)),
                   js_mul (js_div (js_mul (js_sub (clientY ?e) (snd center)) direction) (scale prev))
                     (fl (1 / 10)));
         proposed = \<lparr>transXY = (js_sub (fst (transXY prev)) (fst offset),
                                js_sub (snd (transXY prev)) (snd offset)),
                     scale = js_add (scale prev) (js_mul direction (fl (1 / 10))),
                     rotate_deg = rotate_deg prev\<rparr>
     in clampScale prev proposed (fst (getOriginRect ?refs useFreeScale)) SCALE) =
     \<lparr>transXY = (Fin (- 5), Fin (- 3)), scale = Fin (2476979795053773 / 2251799813685248),
      rotate_deg = Zero False\<rparr>"
    by code_simp
  from wheel_proposal [OF h1 h2 h3 h4, of "fl (1 / 10)" clampScale, unfolded Let_def]
       proposal [unfolded Let_def]
  have "cells (handleGesture (fl (1 / 10)) clampScale ?refs ?e useFreeScale) =
     \<lparr>transXY = (Fin (- 5), Fin (- 3)), scale = Fin (2476979795053773 / 2251799813685248),
      rotate_deg = Zero False\<rparr>"
    by (rule trans)
  with h1 h2 show ?thesis by simp
qed

section \<open>A drag adds up the pointer deltas\<close>

text \<open>
  Claim C3, as amended. During one drag session in which the hook renders after every
  pointer move, with the default correction function, the translation rendered after any
  finite sequence of moves is the translation rendered before it with the pointer deltas
  added to it one after the other, in each coordinate. A delta is the position of a move
  minus the position recorded before it, and every subtraction and addition is that of
  doubles, rounded to the nearest. When the translation, the recorded position and the
  positions of the moves are integers of magnitude at most \<open>2^50\<close>, nothing is rounded,
  and the result is exactly the initial translation plus the sum of the deltas.
\<close>

theorem drag_translation_sum:
  assumes "mousedownLock st"
  shows "transXY (transformConfigRef (run scaleStep defaultCustomTrans (renderedMoves moves) st)) =
           addDeltas (transXY (transformConfigRef st)) (mouseXY st) (map snd moves) \<and>
         (transXY (transformConfigRef st) = (of_integer tx, of_integer ty) \<and>
          mouseXY st = (of_integer mx, of_integer my) \<and>
          map snd moves = map (\<lambda>p. \<lparr>clientX = of_integer (fst p), clientY = of_integer (snd p)\<rparr>) ps \<and>
          \<bar>tx\<bar> \<le> 2 ^ 50 \<and> \<bar>ty\<bar> \<le> 2 ^ 50 \<and> \<bar>mx\<bar> \<le> 2 ^ 50 \<and> \<bar>my\<bar> \<le> 2 ^ 50 \<and>
          (\<forall>p \<in> set ps. \<bar>fst p\<bar> \<le> 2 ^ 50 \<and> \<bar>snd p\<bar> \<le> 2 ^ 50) \<longrightarrow>
          transXY (transformConfigRef (run scaleStep defaultCustomTrans (renderedMoves moves) st)) =
            (of_integer (tx + sum_list (intDeltas mx (map fst ps))),
             of_integer (ty + sum_list (intDeltas my (map snd ps)))))"
proof (intro conjI impI)
  show "transXY (transformConfigRef (run scaleStep defaultCustomTrans (renderedMoves moves) st)) =
           addDeltas (transXY (transformConfigRef st)) (mouseXY st) (map snd moves)"
    using assms by (rule rendered_drag)
next
  assume h: "transXY (transformConfigRef st) = (of_integer tx, of_integer ty) \<and>
          mouseXY st = (of_integer mx, of_integer my) \<and>
          map snd moves = map (\<lambda>p. \<lparr>clientX = of_integer (fst p), clientY = of_integer (snd p)\<rparr>) ps \<and>
          \<bar>tx\<bar> \<le> 2 ^ 50 \<and> \<bar>ty\<bar> \<le> 2 ^ 50 \<and> \<bar>mx\<bar> \<le> 2 ^ 50 \<and> \<bar>my\<bar> \<le> 2 ^ 50 \<and>
          (\<forall>p \<in> set ps. \<bar>fst p\<bar> \<le> 2 ^ 50 \<and> \<bar>snd p\<bar> \<le> 2 ^ 50)"
  then have bt: "\<bar>tx\<bar> \<le> 2 ^ 50" "\<bar>ty\<bar> \<le> 2 ^ 50"
    and bx: "\<bar>mx\<bar> \<le> 2 ^ 50" and by': "\<bar>my\<bar> \<le> 2 ^ 50"
    and ps: "\<forall>p \<in> set ps. \<bar>fst p\<bar> \<le> 2 ^ 50 \<and> \<bar>snd p\<bar> \<le> 2 ^ 50"
    by simp_all
  from bt bx by' have dx: "\<bar>tx - mx\<bar> \<le> 2 ^ 51" and dy: "\<bar>ty - my\<bar> \<le> 2 ^ 51"
    by simp_all
  from h have "addDeltas (transXY (transformConfigRef st)) (mouseXY st) (map snd moves) =
      addDeltas (of_integer tx, of_integer ty) (of_integer mx, of_integer my)
        (map (\<lambda>p. \<lparr>clientX = of_integer (fst p), clientY = of_integer (snd p)\<rparr>) ps)"
    by simp
  also have "\<dots> = (of_integer (tx + sum_list (intDeltas mx (map fst ps))),
             of_integer (ty + sum_list (intDeltas my (map snd ps))))"
    by (rule addDeltas_integers [OF dx dy bx by' ps])
  finally show "transXY (transformConfigRef (run scaleStep defaultCustomTrans (renderedMoves moves) st)) =
            (of_integer (tx + sum_list (intDeltas mx (map fst ps))),
             of_integer (ty + sum_list (intDeltas my (map snd ps))))"
    using rendered_drag [OF assms, of scaleStep moves] by simp
qed

text \<open>
  The claim as it was stated fails in two ways. After a press at (0, 0), two moves to
  (10, 20) and to (15, 26) with no render between them: the second move reads the
  translation of the last render, still (0, 0), and the translation committed is (5, 6),
  the last delta alone. And with a render after every move: from the translation
  -9.545454545454547 the deltas 282, -236 and -39 give -2.545454545454561, which is not
  the exact sum of the initial translation and the deltas.
\<close>

theorem drag_loses_deltas:
  "transXY (cells
     (run (fl (1 / 10)) defaultCustomTrans
        [(\<lparr>containerRef = Some \<lparr>left = Zero False, top_y = Zero False, width = Fin 400, height = Fin 300\<rparr>,
           childRef = Some \<lparr>left = Fin 100, top_y = Fin 100, width = Fin 200, height = Fin 100\<rparr>\<rparr>,
          Mousemove \<lparr>clientX = Fin 10, clientY = Fin 20\<rparr>),
         (\<lparr>containerRef = Some \<lparr>left = Zero False, top_y = Zero False, width = Fin 400, height = Fin 300\<rparr>,
           childRef = Some \<lparr>left = Fin 100, top_y = Fin 100, width = Fin 200, height = Fin 100\<rparr>\<rparr>,
          Mousemove \<lparr>clientX = Fin 15, clientY = Fin 26\<rparr>)]
        (handleMouseDown \<lparr>clientX = Zero False, clientY = Zero False\<rparr> useFreeScale)))
     = (Fin 5, Fin 6) \<and>
   fst (transXY (transformConfigRef
     (run (fl (1 / 10)) defaultCustomTrans
        (renderedMoves
          [(\<lparr>containerRef = Some \<lparr>left = Zero False, top_y = Zero False, width = Fin 400, height = Fin 300\<rparr>,
             childRef = Some \<lparr>left = Fin 100, top_y = Fin 100, width = Fin 200, height = Fin 100\<rparr>\<rparr>,
            \<lparr>clientX = Fin 282, clientY = Zero False\<rparr>),
           (\<lparr>containerRef = Some \<lparr>left = Zero False, top_y = Zero False, width = Fin 400, height = Fin 300\<rparr>,
             childRef = Some \<lparr>left = Fin 100, top_y = Fin 100, width = Fin 200, height = Fin 100\<rparr>\<rparr>,
            \<lparr>clientX = Fin 46, clientY = Zero False\<rparr>),
           (\<lparr>containerRef = Some \<lparr>left = Zero False, top_y = Zero False, width = Fin 400, height = Fin 300\<rparr>,
             childRef = Some \<lparr>left = Fin 100, top_y = Fin 100, width = Fin 200, height = Fin 100\<rparr>\<rparr>,
            \<lparr>clientX = Fin 7, clientY = Zero False\<rparr>)])
        (handleMouseDown \<lparr>clientX = Zero False, clientY = Zero False\<rparr>
           (render (setTransXY (Fin (- (671701648968611 / 70368744177664)), Zero False) useFreeScale))))))
     = Fin (- (44780109931241 / 17592186044416)) \<and>
   (- (44780109931241 / 17592186044416) :: rat) \<noteq>
     - (671701648968611 / 70368744177664) + (282 - 0) + (46 - 282) + (7 - 46)"
  by code_simp

text \<open>
  Pressed at (10, 10), then moved to (15, 12) and to (25, 7), with a render after each
  move: the deltas (5, 2) and (10, -5) are added to (0, 0) and give (15, -3).
\<close>

theorem drag_translation_sum_witness:
  "mousedownLock (handleMouseDown \<lparr>clientX = Fin 10, clientY = Fin 10\<rparr> useFreeScale) \<and>
   \<bar>0::int\<bar> \<le> 2 ^ 50 \<and> \<bar>10::int\<bar> \<le> 2 ^ 50 \<and>
   \<bar>15::int\<bar> \<le> 2 ^ 50 \<and> \<bar>12::int\<bar> \<le> 2 ^ 50 \<and> \<bar>25::int\<bar> \<le> 2 ^ 50 \<and> \<bar>7::int\<bar> \<le> 2 ^ 50 \<and>
   transXY (transformConfigRef
     (run defaultScaleStep defaultCustomTrans
        (renderedMoves
           [(\<lparr>containerRef = Some \<lparr>left = Zero False, top_y = Zero False, width = Fin 400, height = Fin 300\<rparr>,
              childRef = Some \<lparr>left = Fin 100, top_y = Fin 100, width = Fin 200, height = Fin 100\<rparr>\<rparr>,
             \<lparr>clientX = Fin 15, clientY = Fin 12\<rparr>),
            (\<lparr>containerRef = Some \<lparr>left = Zero False, top_y = Zero False, width = Fin 400, height = Fin 300\<rparr>,
              childRef = Some \<lparr>left = Fin 100, top_y = Fin 100, width = Fin 200, height = Fin 100\<rparr>\<rparr>,
             \<lparr>clientX = Fin 25, clientY = Fin 7\<rparr>)])
        (handleMouseDown \<lparr>clientX = Fin 10, clientY = Fin 10\<rparr> useFreeScale))) = (Fin 15, Fin (- 3))"
proof -
  let ?refs = "\<lparr>containerRef = Some \<lparr>left = Zero False, top_y = Zero False, width = Fin 400, height = Fin 300\<rparr>,
              childRef = Some \<lparr>left = Fin 100, top_y = Fin 100, width = Fin 200, height = Fin 100\<rparr>\<rparr>"
  let ?st = "handleMouseDown \<lparr>clientX = Fin 10, clientY = Fin 10\<rparr> useFreeScale"
  let ?moves = "[(?refs, \<lparr>clientX = Fin 15, clientY = Fin 12\<rparr>), (?refs, \<lparr>clientX = Fin 25, clientY = Fin 7\<rparr>)]"
  let ?ps = "[(15::int, 12::int), (25, 7)]"
  have lock: "mousedownLock ?st"
    by (simp add: handleMouseDown_def)
  have ints: "transXY (transformConfigRef ?st) = (of_integer 0, of_integer 0) \<and>
      mouseXY ?st = (of_integer 10, of_integer 10) \<and>
      map snd ?moves = map (\<lambda>p. \<lparr>clientX = of_integer (fst p), clientY = of_integer (snd p)\<rparr>) ?ps \<and>
      \<bar>0::int\<bar> \<le> 2 ^ 50 \<and> \<bar>0::int\<bar> \<le> 2 ^ 50 \<and> \<bar>10::int\<bar> \<le> 2 ^ 50 \<and> \<bar>10::int\<bar> \<le> 2 ^ 50 \<and>
      (\<forall>p \<in> set ?ps. \<bar>fst p\<bar> \<le> 2 ^ 50 \<and> \<bar>snd p\<bar> \<le> 2 ^ 50)"
    by (simp add: handleMouseDown_def useFreeScale_def of_integer_def)
  from drag_translation_sum [OF lock, of defaultScaleStep ?moves 0 0 10 10 ?ps,
      THEN conjunct2, THEN mp, OF ints]
  have "transXY (transformConfigRef (run defaultScaleStep defaultCustomTrans (renderedMoves ?moves) ?st)) =
      (Fin 15, Fin (- 3))"
    by (simp add: of_integer_def)
  with lock show ?thesis by simp
qed

section \<open>What is committed\<close>

text \<open>
  Claim C4, as amended. A processed wheel event commits the whole state that the
  correction function returns for (previous state, proposed state, rect snapshot, \<open>SCALE\<close>);
  with the correction function that clamps the scale to the interval from 0.5 to 2, a
  wheel event whose proposed scale is 2.3 commits the scale 2. A pointer move during a
  drag commits only the translation of what the correction function returns for
  (previous state, proposed state, rect snapshot, \<open>MOVE\<close>): the scale and the rotation keep
  their previous values.
\<close>

theorem commit_through_correction:
  "(\<not> mousedownLock st \<and> \<not> js_strict_eq (deltaY w) (Zero False) \<and>
      containerRef refs = Some container \<and> childRef refs = Some child \<longrightarrow>
      (let prev = transformConfigRef st;
           direction = (if js_gt (deltaY w) (Zero False) then Fin (- 1) else Fin 1);
           center = (js_add (left child) (js_div (width child) (Fin 2)),
                     js_add (top_y child) (js_div (height child) (Fin 2)));
           offset = (js_mul (js_div (js_mul (js_sub (clientX w) (fst center)) direction) (scale prev))
                       scaleStep,
                     js_mul (js_div (js_mul (js_sub (clientY w) (snd center)) direction) (scale prev))
                       scaleStep);
           proposed = \<lparr>transXY = (js_sub (fst (transXY prev)) (fst offset),
                                  js_sub (snd (transXY prev)) (snd offset)),
                       scale = js_add (scale prev) (js_mul direction scaleStep),
                       rotate_deg = rotate_deg prev\<rparr>;
           rect = fst (getOriginRect refs st)
       in cells (handleGesture scaleStep customTrans refs w st) =
            customTrans prev proposed rect SCALE \<and>
          (scale proposed = fl (23 / 10) \<longrightarrow>
             scale (cells (handleGesture scaleStep clampScale refs w st)) = Fin 2))) \<and>
   (mousedownLock st \<longrightarrow>
      (let prev = transformConfigRef st;
           delta = (js_sub (clientX e) (fst (mouseXY st)), js_sub (clientY e) (snd (mouseXY st)));
           proposed = prev\<lparr>transXY := (js_add (fst (transXY prev)) (fst delta),
                                        js_add (snd (transXY prev)) (snd delta))\<rparr>;
           rect = fst (getOriginRect refs (st\<lparr>mouseXY := (clientX e, clientY e)\<rparr>))
       in cells (handleMove customTrans refs e st) =
            (cells st)\<lparr>transXY := transXY (customTrans prev proposed rect MOVE)\<rparr>))"
proof (intro conjI impI)
  assume h: "\<not> mousedownLock st \<and> \<not> js_strict_eq (deltaY w) (Zero False) \<and>
      containerRef refs = Some container \<and> childRef refs = Some child"
  then have p: "\<not> mousedownLock st" "\<not> js_strict_eq (deltaY w) (Zero False)"
    "containerRef refs = Some container" "childRef refs = Some child"
    by simp_all
  have big: "js_gt (fl (23 / 10)) (Fin 2)" by code_simp
  show "let prev = transformConfigRef st;
           direction = (if js_gt (deltaY w) (Zero False) then Fin (- 1) else Fin 1);
           center = (js_add (left child) (js_div (width child) (Fin 2)),
                     js_add (top_y child) (js_div (height child) (Fin 2)));
           offset = (js_mul (js_div (js_mul (js_sub (clientX w) (fst center)) direction) (scale prev))
                       scaleStep,
                     js_mul (js_div (js_mul (js_sub (clientY w) (snd center)) direction) (scale prev))
                       scaleStep);
           proposed = \<lparr>transXY = (js_sub (fst (transXY prev)) (fst offset),
                                  js_sub (snd (transXY prev)) (snd offset)),
                       scale = js_add (scale prev) (js_mul direction scaleStep),
                       rotate_deg = rotate_deg prev\<rparr>;
           rect = fst (getOriginRect refs st)
       in cells (handleGesture scaleStep customTrans refs w st) =
            customTrans prev proposed rect SCALE \<and>
          (scale proposed = fl (23 / 10) \<longrightarrow>
             scale (cells (handleGesture scaleStep clampScale refs w st)) = Fin 2)"
    using big
    by (simp add: handleGesture_processed [OF p] Let_def direc_def clampScale_def)
next
  assume lock: "mousedownLock st"
  show "let prev = transformConfigRef st;
           delta = (js_sub (clientX e) (fst (mouseXY st)), js_sub (clientY e) (snd (mouseXY st)));
           proposed = prev\<lparr>transXY := (js_add (fst (transXY prev)) (fst delta),
                                        js_add (snd (transXY prev)) (snd delta))\<rparr>;
           rect = fst (getOriginRect refs (st\<lparr>mouseXY := (clientX e, clientY e)\<rparr>))
       in cells (handleMove customTrans refs e st) =
            (cells st)\<lparr>transXY := transXY (customTrans prev proposed rect MOVE)\<rparr>"
    by (simp add: handleMove_dragging [OF lock] Let_def)
qed

text \<open>
  The claim as it was stated, that a pointer move commits exactly the state the correction
  function returns, fails: after \<open>setScale(3)\<close> and a render, with the clamping correction
  function, a move from (0, 0) to (10, 20) gets a result with the scale 2, and the state
  after the move still has the scale 3 (line 98 stores \<open>customTransRes.transXY\<close> only).
\<close>

theorem move_result_not_committed_whole:
  "clampScale
     (transformConfigRef
        (handleMouseDown \<lparr>clientX = Zero False, clientY = Zero False\<rparr>
           (render (setScale (Fin 3) useFreeScale))))
     ((transformConfigRef
        (handleMouseDown \<lparr>clientX = Zero False, clientY = Zero False\<rparr>
           (render (setScale (Fin 3) useFreeScale))))
        \<lparr>transXY := (js_add (Zero False) (js_sub (Fin 10) (Zero False)),
                     js_add (Zero False) (js_sub (Fin 20) (Zero False)))\<rparr>)
     \<lparr>originConatinerRect =
        Some \<lparr>left = Zero False, top_y = Zero False, width = Fin 400, height = Fin 300\<rparr>,
      originChildRect =
        Some \<lparr>left = Fin 100, top_y = Fin 100, width = Fin 200, height = Fin 100\<rparr>\<rparr>
     MOVE
   = \<lparr>transXY = (Fin 10, Fin 20), scale = Fin 2, rotate_deg = Zero False\<rparr> \<and>
   cells
     (handleMove clampScale
        \<lparr>containerRef = Some \<lparr>left = Zero False, top_y = Zero False, width = Fin 400, height = Fin 300\<rparr>,
         childRef = Some \<lparr>left = Fin 100, top_y = Fin 100, width = Fin 200, height = Fin 100\<rparr>\<rparr>
        \<lparr>clientX = Fin 10, clientY = Fin 20\<rparr>
        (handleMouseDown \<lparr>clientX = Zero False, clientY = Zero False\<rparr>
           (render (setScale (Fin 3) useFreeScale))))
   = \<lparr>transXY = (Fin 10, Fin 20), scale = Fin 3, rotate_deg = Zero False\<rparr> \<and>
   \<lparr>transXY = (Fin 10, Fin 20), scale = Fin 3, rotate_deg = Zero False\<rparr> \<noteq>
   \<lparr>transXY = (Fin 10, Fin 20), scale = Fin 2, rotate_deg = Zero False\<rparr>"
  by code_simp

text \<open>
  A zoom in from the scale 2 with step 0.3 proposes 2.3 and commits 2; the move above
  commits its translation and keeps the scale 3.
\<close>

theorem commit_through_correction_witness:
  "js_add (scale (transformConfigRef (render (setScale (Fin 2) useFreeScale))))
     (js_mul (Fin 1) (fl (3 / 10))) = fl (23 / 10) \<and>
   scale (cells
     (handleGesture (fl (3 / 10)) clampScale
        \<lparr>containerRef = Some \<lparr>left = Zero False, top_y = Zero False, width = Fin 400, height = Fin 300\<rparr>,
         childRef = Some \<lparr>left = Fin 100, top_y = Fin 100, width = Fin 200, height = Fin 100\<rparr>\<rparr>
        \<lparr>clientX = Fin 200, clientY = Fin 150, deltaY = Fin (- 120)\<rparr>
        (render (setScale (Fin 2) useFreeScale)))) = Fin 2 \<and>
   mousedownLock (handleMouseDown \<lparr>clientX = Zero False, clientY = Zero False\<rparr>
                    (render (setScale (Fin 3) useFreeScale))) \<and>
   cells
     (handleMove clampScale
        \<lparr>containerRef = Some \<lparr>left = Zero False, top_y = Zero False, width = Fin 400, height = Fin 300\<rparr>,
         childRef = Some \<lparr>left = Fin 100, top_y = Fin 100, width = Fin 200, height = Fin 100\<rparr>\<rparr>
        \<lparr>clientX = Fin 10, clientY = Fin 20\<rparr>
        (handleMouseDown \<lparr>clientX = Zero False, clientY = Zero False\<rparr>
           (render (setScale (Fin 3) useFreeScale)))) =
     \<lparr>transXY = (Fin 10, Fin 20), scale = Fin 3, rotate_deg = Zero False\<rparr>"
proof -
  let ?container = "\<lparr>left = Zero False, top_y = Zero False, width = Fin 400, height = Fin 300\<rparr>"
  let ?child = "\<lparr>left = Fin 100, top_y = Fin 100, width = Fin 200, height = Fin 100\<rparr>"
  let ?refs = "\<lparr>containerRef = Some ?container, childRef = Some ?child\<rparr>"
  let ?w = "\<lparr>clientX = Fin 200, clientY = Fin 150, deltaY = Fin (- 120)\<rparr>"
  let ?e = "\<lparr>clientX = Fin 10, clientY = Fin 20\<rparr>"
  let ?st = "render (setScale (Fin 2) useFreeScale)"
  let ?drag = "handleMouseDown \<lparr>clientX = Zero False, clientY = Zero False\<rparr>
                 (render (setScale (Fin 3) useFreeScale))"
  have wheel: "\<not> mousedownLock ?st \<and> \<not> js_strict_eq (deltaY ?w) (Zero False) \<and>
      containerRef ?refs = Some ?container \<and> childRef ?refs = Some ?child"
    by (simp add: render_def setScale_def useFreeScale_def)
  have p23: "js_add (scale (transformConfigRef ?st)) (js_mul (Fin 1) (fl (3 / 10))) = fl (23 / 10)"
    by code_simp
  have lock: "mousedownLock ?drag"
    by (simp add: handleMouseDown_def)
  have a: "scale (cells (handleGesture (fl (3 / 10)) clampScale ?refs ?w ?st)) = Fin 2"
    by (rule commit_through_correction [of ?st ?w ?refs ?container ?child "fl (3 / 10)" clampScale,
          THEN conjunct1, THEN mp, OF wheel, unfolded Let_def, THEN conjunct2, THEN mp])
       code_simp
  have b: "cells (handleMove clampScale ?refs ?e ?drag) =
      \<lparr>transXY = (Fin 10, Fin 20), scale = Fin 3, rotate_deg = Zero False\<rparr>"
    by (rule trans [OF commit_through_correction [of ?drag _ ?refs _ _ _ clampScale ?e,
          THEN conjunct2, THEN mp, OF lock, unfolded Let_def]])
       code_simp
  from a b p23 lock show ?thesis by simp
qed

section \<open>Wheel events that are ignored\<close>

text \<open>
  Claim C5. A wheel event leaves the whole state of the hook as it was (translation,
  scale, rotation, and also the drag lock, the recorded pointer and the cached rects)
  when a drag session is active or when its vertical delta is exactly zero.
\<close>

theorem wheel_ignored:
  assumes "mousedownLock st \<or> js_strict_eq (deltaY e) (Zero False)"
  shows "handleGesture scaleStep customTrans refs e st = st"
  using assms by (auto simp: handleGesture_def)

text \<open>
  A wheel event during a drag, and a wheel event with the delta -0 outside a drag.
\<close>

theorem wheel_ignored_witness:
  "(mousedownLock (handleMouseDown \<lparr>clientX = Fin 3, clientY = Fin 4\<rparr> useFreeScale)
      \<or> js_strict_eq (deltaY \<lparr>clientX = Fin 5, clientY = Fin 6, deltaY = Fin 120\<rparr>) (Zero False)) \<and>
   handleGesture defaultScaleStep defaultCustomTrans
      \<lparr>containerRef = Some \<lparr>left = Zero False, top_y = Zero False, width = Fin 400, height = Fin 300\<rparr>,
       childRef = Some \<lparr>left = Fin 100, top_y = Fin 100, width = Fin 200, height = Fin 100\<rparr>\<rparr>
      \<lparr>clientX = Fin 5, clientY = Fin 6, deltaY = Fin 120\<rparr>
      (handleMouseDown \<lparr>clientX = Fin 3, clientY = Fin 4\<rparr> useFreeScale)
    = handleMouseDown \<lparr>clientX = Fin 3, clientY = Fin 4\<rparr> useFreeScale \<and>
   (mousedownLock useFreeScale
      \<or> js_strict_eq (deltaY \<lparr>clientX = Fin 5, clientY = Fin 6, deltaY = Zero True\<rparr>) (Zero False)) \<and>
   handleGesture defaultScaleStep defaultCustomTrans
      \<lparr>containerRef = Some \<lparr>left = Zero False, top_y = Zero False, width = Fin 400, height = Fin 300\<rparr>,
       childRef = Some \<lparr>left = Fin 100, top_y = Fin 100, width = Fin 200, height = Fin 100\<rparr>\<rparr>
      \<lparr>clientX = Fin 5, clientY = Fin 6, deltaY = Zero True\<rparr> useFreeScale
    = useFreeScale"
proof -
  have drag: "mousedownLock (handleMouseDown \<lparr>clientX = Fin 3, clientY = Fin 4\<rparr> useFreeScale)
      \<or> js_strict_eq (deltaY \<lparr>clientX = Fin 5, clientY = Fin 6, deltaY = Fin 120\<rparr>) (Zero False)"
    by (simp add: handleMouseDown_def)
  have zero: "mousedownLock useFreeScale
      \<or> js_strict_eq (deltaY \<lparr>clientX = Fin 5, clientY = Fin 6, deltaY = Zero True\<rparr>) (Zero False)"
    by simp
  from wheel_ignored [OF drag] wheel_ignored [OF zero] drag zero
  show ?thesis by simp
qed

section \<open>The transform string\<close>

text \<open>
  Claim C6. For a state with the translation \<open>(x, y)\<close>, the rotation \<open>r\<close> and the scale
  \<open>s\<close> the transform string is \<open>translateX(x px) translateY(y px) rotate(r deg) scale(s)\<close>,
  in this order, each number printed by the runtime's conversion; with the translation
  (10, 20), the rotation 30 and the scale 1.5, whose conversions are \<open>10\<close>, \<open>20\<close>, \<open>30\<close>
  and \<open>1.5\<close>, it is \<open>translateX(10px) translateY(20px) rotate(30deg) scale(1.5)\<close>.
\<close>

theorem transform_rendering:
  "transform toString (st\<lparr>transformConfigRef := \<lparr>transXY = (x, y), scale = s, rotate_deg = r\<rparr>\<rparr>) =
     ''translateX('' @ toString x @ ''px) translateY('' @ toString y @
     ''px) rotate('' @ toString r @ ''deg) scale('' @ toString s @ '')'' \<and>
   (toString (Fin 10) = ''10'' \<and> toString (Fin 20) = ''20'' \<and> toString (Fin 30) = ''30'' \<and>
    toString (Fin (3 / 2)) = ''1.5'' \<longrightarrow>
    transform toString
      (st\<lparr>transformConfigRef :=
           \<lparr>transXY = (Fin 10, Fin 20), scale = Fin (3 / 2), rotate_deg = Fin 30\<rparr>\<rparr>) =
      ''translateX(10px) translateY(20px) rotate(30deg) scale(1.5)'')"
  by (simp add: transform_def)

text \<open>
  A conversion that prints the four numbers of the example as JavaScript does.
\<close>

theorem transform_rendering_witness:
  "transform (\<lambda>n. if n = Fin 10 then ''10'' else if n = Fin 20 then ''20''
                  else if n = Fin 30 then ''30'' else ''1.5'')
     (render (setRotate (Fin 30) (setScale (Fin (3 / 2)) (setTransXY (Fin 10, Fin 20) useFreeScale)))) =
   ''translateX(10px) translateY(20px) rotate(30deg) scale(1.5)''"
proof -
  let ?toString = "\<lambda>n::number. if n = Fin 10 then ''10'' else if n = Fin 20 then ''20''
                     else if n = Fin 30 then ''30'' else ''1.5''"
  let ?st = "render (setRotate (Fin 30) (setScale (Fin (3 / 2)) (setTransXY (Fin 10, Fin 20) useFreeScale)))"
  have digits: "?toString (Fin 10) = ''10'' \<and> ?toString (Fin 20) = ''20'' \<and>
      ?toString (Fin 30) = ''30'' \<and> ?toString (Fin (3 / 2)) = ''1.5''"
    by simp
  have st: "?st = ?st\<lparr>transformConfigRef :=
        \<lparr>transXY = (Fin 10, Fin 20), scale = Fin (3 / 2), rotate_deg = Fin 30\<rparr>\<rparr>"
    by (simp add: render_def setRotate_def setScale_def setTransXY_def useFreeScale_def)
  from transform_rendering [where toString = ?toString and st = ?st] digits
  have "transform ?toString
      (?st\<lparr>transformConfigRef :=
          \<lparr>transXY = (Fin 10, Fin 20), scale = Fin (3 / 2), rotate_deg = Fin 30\<rparr>\<rparr>) =
      ''translateX(10px) translateY(20px) rotate(30deg) scale(1.5)''"
    by blast
  with st show ?thesis by simp
qed

section \<open>One wheel event, one step\<close>

text \<open>
  Claim C7, as amended. With the default correction function and a scale step that is a
  double, a processed wheel event commits the scale of the last render minus \<open>scaleStep\<close>
  when the vertical delta is positive and plus \<open>scaleStep\<close> otherwise, the difference and
  the sum being those of doubles. So a committed scale that is finite (the scale before
  and the step are finite then, and \<open>val\<close> is their value) is the exact result of one step
  rounded once: it is within \<open>rounding_bound\<close> of the scale before minus or plus
  \<open>scaleStep\<close>, and the magnitude of the change differs from the magnitude of \<open>scaleStep\<close>
  by no more than that bound (a relative error of \<open>2^-53\<close>).
\<close>

theorem wheel_scale_step:
  assumes "\<not> mousedownLock st" and "\<not> js_strict_eq (deltaY e) (Zero False)" and "mounted refs"
    and "is_double scaleStep"
  shows "scale (cells (handleGesture scaleStep defaultCustomTrans refs e st)) =
           (if js_gt (deltaY e) (Zero False)
            then js_sub (scale (transformConfigRef st)) scaleStep
            else js_add (scale (transformConfigRef st)) scaleStep) \<and>
         (scale (cells (handleGesture scaleStep defaultCustomTrans refs e st)) = Fin c \<longrightarrow>
            (let before = val (scale (transformConfigRef st));
                 exact = (if js_gt (deltaY e) (Zero False)
                          then before - val scaleStep else before + val scaleStep)
             in \<bar>c - exact\<bar> \<le> rounding_bound exact \<and>
                \<bar>\<bar>c - before\<bar> - \<bar>val scaleStep\<bar>\<bar> \<le> rounding_bound exact))"
proof (intro conjI impI)
  show committed: "scale (cells (handleGesture scaleStep defaultCustomTrans refs e st)) =
           (if js_gt (deltaY e) (Zero False)
            then js_sub (scale (transformConfigRef st)) scaleStep
            else js_add (scale (transformConfigRef st)) scaleStep)"
    using assms(4)
    by (simp add: handleGesture_default_scale [OF assms(1-3)] direc_def js_sub_def
        js_mul_one js_mul_minus_one)
  assume fin: "scale (cells (handleGesture scaleStep defaultCustomTrans refs e st)) = Fin c"
  let ?a = "val (scale (transformConfigRef st))"
  let ?b = "val scaleStep"
  let ?exact = "if js_gt (deltaY e) (Zero False) then ?a - ?b else ?a + ?b"
  have err: "\<bar>c - ?exact\<bar> \<le> rounding_bound ?exact"
  proof (cases "js_gt (deltaY e) (Zero False)")
    case True
    with committed fin have "js_sub (scale (transformConfigRef st)) scaleStep = Fin c" by simp
    from js_sub_error [OF this] True show ?thesis by simp
  next
    case False
    with committed fin have "js_add (scale (transformConfigRef st)) scaleStep = Fin c" by simp
    from js_add_error [OF this] False show ?thesis by simp
  qed
  have "\<bar>\<bar>c - ?a\<bar> - \<bar>?b\<bar>\<bar> \<le> \<bar>c - ?exact\<bar>"
    by (cases "js_gt (deltaY e) (Zero False)") simp_all
  from this err have "\<bar>\<bar>c - ?a\<bar> - \<bar>?b\<bar>\<bar> \<le> rounding_bound ?exact" by (rule order_trans)
  with err show "let before = val (scale (transformConfigRef st));
                 exact = (if js_gt (deltaY e) (Zero False)
                          then before - val scaleStep else before + val scaleStep)
             in \<bar>c - exact\<bar> \<le> rounding_bound exact \<and>
                \<bar>\<bar>c - before\<bar> - \<bar>val scaleStep\<bar>\<bar> \<le> rounding_bound exact"
    by (simp add: Let_def)
qed

text \<open>
  The claim as it was stated, a change of exactly one \<open>scaleStep\<close> and never more, fails:
  with the step 0.1, a second zoom in from the rendered scale 1.1 commits
  1.2000000000000002, and the exact difference of the two scales is more than the
  step.
\<close>

theorem wheel_step_rounds:
  "scale (transformConfigRef
     (render (handleGesture (fl (1 / 10)) defaultCustomTrans
        \<lparr>containerRef = Some \<lparr>left = Zero False, top_y = Zero False, width = Fin 400, height = Fin 300\<rparr>,
         childRef = Some \<lparr>left = Fin 100, top_y = Fin 100, width = Fin 200, height = Fin 100\<rparr>\<rparr>
        \<lparr>clientX = Fin 200, clientY = Fin 150, deltaY = Fin (- 120)\<rparr> useFreeScale)))
     = Fin (2476979795053773 / 2251799813685248) \<and>
   scale (cells
     (handleGesture (fl (1 / 10)) defaultCustomTrans
        \<lparr>containerRef = Some \<lparr>left = Zero False, top_y = Zero False, width = Fin 400, height = Fin 300\<rparr>,
         childRef = Some \<lparr>left = Fin 100, top_y = Fin 100, width = Fin 200, height = Fin 100\<rparr>\<rparr>
        \<lparr>clientX = Fin 200, clientY = Fin 150, deltaY = Fin (- 120)\<rparr>
        (render (handleGesture (fl (1 / 10)) defaultCustomTrans
           \<lparr>containerRef = Some \<lparr>left = Zero False, top_y = Zero False, width = Fin 400, height = Fin 300\<rparr>,
            childRef = Some \<lparr>left = Fin 100, top_y = Fin 100, width = Fin 200, height = Fin 100\<rparr>\<rparr>
           \<lparr>clientX = Fin 200, clientY = Fin 150, deltaY = Fin (- 120)\<rparr> useFreeScale))))
     = Fin (1351079888211149 / 1125899906842624) \<and>
   fl (1 / 10) = Fin (3602879701896397 / 36028797018963968) \<and>
   (3602879701896397 / 36028797018963968 :: rat) <
     1351079888211149 / 1125899906842624 - 2476979795053773 / 2251799813685248"
  by code_simp

text \<open>
  A zoom out from the first render with step 0.1 commits the scale 0.9, which is
  \<open>2^-55\<close> away from 1 minus the double nearest to 0.1.
\<close>

theorem wheel_scale_step_witness:
  "\<not> mousedownLock useFreeScale \<and>
   \<not> js_strict_eq (deltaY \<lparr>clientX = Fin 250, clientY = Fin 180, deltaY = Fin 120\<rparr>) (Zero False) \<and>
   mounted \<lparr>containerRef = Some \<lparr>left = Zero False, top_y = Zero False, width = Fin 400, height = Fin 300\<rparr>,
            childRef = Some \<lparr>left = Fin 100, top_y = Fin 100, width = Fin 200, height = Fin 100\<rparr>\<rparr> \<and>
   is_double (fl (1 / 10)) \<and>
   scale (cells
     (handleGesture (fl (1 / 10)) defaultCustomTrans
        \<lparr>containerRef = Some \<lparr>left = Zero False, top_y = Zero False, width = Fin 400, height = Fin 300\<rparr>,
         childRef = Some \<lparr>left = Fin 100, top_y = Fin 100, width = Fin 200, height = Fin 100\<rparr>\<rparr>
        \<lparr>clientX = Fin 250, clientY = Fin 180, deltaY = Fin 120\<rparr> useFreeScale)) =
   Fin (8106479329266893 / 9007199254740992) \<and>
   \<bar>8106479329266893 / 9007199254740992 - (1 - val (fl (1 / 10)))\<bar> \<le>
     rounding_bound (1 - val (fl (1 / 10))) \<and>
   \<bar>\<bar>8106479329266893 / 9007199254740992 - 1\<bar> - \<bar>val (fl (1 / 10))\<bar>\<bar> \<le>
     rounding_bound (1 - val (fl (1 / 10)))"
proof -
  let ?refs = "\<lparr>containerRef = Some \<lparr>left = Zero False, top_y = Zero False, width = Fin 400, height = Fin 300\<rparr>,
         childRef = Some \<lparr>left = Fin 100, top_y = Fin 100, width = Fin 200, height = Fin 100\<rparr>\<rparr>"
  let ?e = "\<lparr>clientX = Fin 250, clientY = Fin 180, deltaY = Fin 120\<rparr>"
  have h1: "\<not> mousedownLock useFreeScale" by (simp add: useFreeScale_def)
  have h2: "\<not> js_strict_eq (deltaY ?e) (Zero False)" by simp
  have h3: "mounted ?refs" by (simp add: mounted_def)
  have h4: "is_double (fl (1 / 10))" by code_simp
  note one_step = wheel_scale_step [OF h1 h2 h3 h4, of "8106479329266893 / 9007199254740992"]
  have committed: "scale (cells (handleGesture (fl (1 / 10)) defaultCustomTrans ?refs ?e useFreeScale)) =
      Fin (8106479329266893 / 9007199254740992)"
    by (rule trans [OF one_step [THEN conjunct1]]) code_simp
  from one_step [THEN conjunct2, THEN mp, OF committed]
  have "\<bar>8106479329266893 / 9007199254740992 - (1 - val (fl (1 / 10)))\<bar> \<le>
          rounding_bound (1 - val (fl (1 / 10))) \<and>
        \<bar>\<bar>8106479329266893 / 9007199254740992 - 1\<bar> - \<bar>val (fl (1 / 10))\<bar>\<bar> \<le>
          rounding_bound (1 - val (fl (1 / 10)))"
    by (simp add: Let_def useFreeScale_def)
  with h1 h2 h3 h4 committed show ?thesis by simp
qed

text \<open>
  Claim C8, as amended. With the step 0.1 and the default correction function, from a
  rendered scale 1, a processed zoom-in wheel event (a vertical delta that is neither
  positive nor zero) commits the scale 1.1, and once the hook has rendered that scale, a
  processed zoom-out wheel event (a positive vertical delta) commits the scale 1
  exactly.
\<close>

theorem wheel_round_trip:
  assumes "scale (transformConfigRef st) = Fin 1" and "\<not> mousedownLock st"
    and "mounted refs1"
    and "\<not> js_gt (deltaY zoom_in) (Zero False)" and "\<not> js_strict_eq (deltaY zoom_in) (Zero False)"
    and "mounted refs2" and "js_gt (deltaY zoom_out) (Zero False)"
  shows "scale (cells (handleGesture (fl (1 / 10)) defaultCustomTrans refs1 zoom_in st)) = fl (11 / 10) \<and>
         scale (cells
           (handleGesture (fl (1 / 10)) defaultCustomTrans refs2 zoom_out
              (render (handleGesture (fl (1 / 10)) defaultCustomTrans refs1 zoom_in st)))) = Fin 1"
proof -
  let ?st1 = "handleGesture (fl (1 / 10)) defaultCustomTrans refs1 zoom_in st"
  have up: "js_add (Fin 1) (js_mul (Fin 1) (fl (1 / 10))) = fl (11 / 10)"
    by code_simp
  have down: "js_add (fl (11 / 10)) (js_mul (Fin (- 1)) (fl (1 / 10))) = Fin 1"
    by code_simp
  have s1: "scale (cells ?st1) = fl (11 / 10)"
    using assms(1,4) up
    by (simp add: handleGesture_default_scale [OF assms(2,5,3)] direc_def)
  have lock1: "\<not> mousedownLock (render ?st1)"
    using assms(2) by simp
  have nz2: "\<not> js_strict_eq (deltaY zoom_out) (Zero False)"
    using assms(7) by (rule js_gt_zero_not_eq)
  have s2: "scale (cells (handleGesture (fl (1 / 10)) defaultCustomTrans refs2 zoom_out (render ?st1))) = Fin 1"
    using assms(7) s1 down
    by (simp add: handleGesture_default_scale [OF lock1 nz2 assms(6)] direc_def)
  from s1 s2 show ?thesis by simp
qed

text \<open>
  The claim as it was stated says nothing of a render, and without one it fails: the
  zoom out reads the scale of the last render, still 1, and commits 0.9.
\<close>

theorem wheel_round_trip_needs_render:
  "scale (cells
     (handleGesture (fl (1 / 10)) defaultCustomTrans
        \<lparr>containerRef = Some \<lparr>left = Zero False, top_y = Zero False, width = Fin 400, height = Fin 300\<rparr>,
         childRef = Some \<lparr>left = Fin 100, top_y = Fin 100, width = Fin 200, height = Fin 100\<rparr>\<rparr>
        \<lparr>clientX = Fin 200, clientY = Fin 150, deltaY = Fin 120\<rparr>
        (handleGesture (fl (1 / 10)) defaultCustomTrans
           \<lparr>containerRef = Some \<lparr>left = Zero False, top_y = Zero False, width = Fin 400, height = Fin 300\<rparr>,
            childRef = Some \<lparr>left = Fin 100, top_y = Fin 100, width = Fin 200, height = Fin 100\<rparr>\<rparr>
           \<lparr>clientX = Fin 200, clientY = Fin 150, deltaY = Fin (- 120)\<rparr> useFreeScale)))
     = Fin (8106479329266893 / 9007199254740992) \<and>
   Fin (8106479329266893 / 9007199254740992) \<noteq> Fin 1"
  by code_simp

text \<open>
  The first render, zoomed in and, after a render, out again, with the child resized in
  between.
\<close>

theorem wheel_round_trip_witness:
  "scale (transformConfigRef useFreeScale) = Fin 1 \<and> \<not> mousedownLock useFreeScale \<and>
   \<not> js_gt (deltaY \<lparr>clientX = Fin 250, clientY = Fin 180, deltaY = Fin (- 120)\<rparr>) (Zero False) \<and>
   \<not> js_strict_eq (deltaY \<lparr>clientX = Fin 250, clientY = Fin 180, deltaY = Fin (- 120)\<rparr>) (Zero False) \<and>
   js_gt (deltaY \<lparr>clientX = Fin 90, clientY = Fin 40, deltaY = Fin 120\<rparr>) (Zero False) \<and>
   scale (cells
     (handleGesture (fl (1 / 10)) defaultCustomTrans
        \<lparr>containerRef = Some \<lparr>left = Zero False, top_y = Zero False, width = Fin 400, height = Fin 300\<rparr>,
         childRef = Some \<lparr>left = Fin 100, top_y = Fin 100, width = Fin 200, height = Fin 100\<rparr>\<rparr>
        \<lparr>clientX = Fin 250, clientY = Fin 180, deltaY = Fin (- 120)\<rparr> useFreeScale)) = fl (11 / 10) \<and>
   scale (cells
     (handleGesture (fl (1 / 10)) defaultCustomTrans
        \<lparr>containerRef = Some \<lparr>left = Zero False, top_y = Zero False, width = Fin 400, height = Fin 300\<rparr>,
         childRef = Some \<lparr>left = Fin 85, top_y = Fin 92, width = Fin 220, height = Fin 110\<rparr>\<rparr>
        \<lparr>clientX = Fin 90, clientY = Fin 40, deltaY = Fin 120\<rparr>
        (render (handleGesture (fl (1 / 10)) defaultCustomTrans
           \<lparr>containerRef = Some \<lparr>left = Zero False, top_y = Zero False, width = Fin 400, height = Fin 300\<rparr>,
            childRef = Some \<lparr>left = Fin 100, top_y = Fin 100, width = Fin 200, height = Fin 100\<rparr>\<rparr>
           \<lparr>clientX = Fin 250, clientY = Fin 180, deltaY = Fin (- 120)\<rparr> useFreeScale)))) = Fin 1"
proof -
  let ?refs1 = "\<lparr>containerRef = Some \<lparr>left = Zero False, top_y = Zero False, width = Fin 400, height = Fin 300\<rparr>,
         childRef = Some \<lparr>left = Fin 100, top_y = Fin 100, width = Fin 200, height = Fin 100\<rparr>\<rparr>"
  let ?refs2 = "\<lparr>containerRef = Some \<lparr>left = Zero False, top_y = Zero False, width = Fin 400, height = Fin 300\<rparr>,
         childRef = Some \<lparr>left = Fin 85, top_y = Fin 92, width = Fin 220, height = Fin 110\<rparr>\<rparr>"
  let ?zin = "\<lparr>clientX = Fin 250, clientY = Fin 180, deltaY = Fin (- 120)\<rparr>"
  let ?zout = "\<lparr>clientX = Fin 90, clientY = Fin 40, deltaY = Fin 120\<rparr>"
  have h1: "scale (transformConfigRef useFreeScale) = Fin 1" by (simp add: useFreeScale_def)
  have h2: "\<not> mousedownLock useFreeScale" by (simp add: useFreeScale_def)
  have h3: "mounted ?refs1" by (simp add: mounted_def)
  have h4: "\<not> js_gt (deltaY ?zin) (Zero False)" by simp
  have h5: "\<not> js_strict_eq (deltaY ?zin) (Zero False)" by simp
  have h6: "mounted ?refs2" by (simp add: mounted_def)
  have h7: "js_gt (deltaY ?zout) (Zero False)" by simp
  from wheel_round_trip [OF h1 h2 h3 h4 h5 h6 h7] h1 h2 h4 h5 h7
  show ?thesis by blast
qed

section \<open>The rect snapshot\<close>

text \<open>
  Claim C9, as amended. A gesture that requests the snapshot (a pointer move during a
  drag, a processed wheel event) leaves in each of the two cache refs the rect cached
  before or, when none is cached, what the element gives at that moment: its rect when it
  is mounted, \<open>undefined\<close> when it is not. A rect that is cached stays: whatever events,
  setter calls and renders follow, with whatever layout and correction function, the
  cache ref keeps it and every call of \<open>getOriginRect\<close> returns it, whatever rect the
  element has by then. An \<open>undefined\<close> is not cached: the next request asks the element
  again.
\<close>

theorem rect_snapshot_cached:
  "(mousedownLock st \<longrightarrow>
      containerRectRef (handleMove customTrans refs e st) =
        js_or (containerRectRef st) (containerRef refs) \<and>
      childRectRef (handleMove customTrans refs e st) =
        js_or (childRectRef st) (childRef refs)) \<and>
   (\<not> mousedownLock st \<and> \<not> js_strict_eq (deltaY w) (Zero False) \<and> mounted refs \<longrightarrow>
      containerRectRef (handleGesture scaleStep customTrans refs w st) =
        js_or (containerRectRef st) (containerRef refs) \<and>
      childRectRef (handleGesture scaleStep customTrans refs w st) =
        js_or (childRectRef st) (childRef refs)) \<and>
   (containerRectRef st = Some c \<longrightarrow>
      containerRectRef (run scaleStep customTrans evs st) = Some c \<and>
      originConatinerRect (fst (getOriginRect refs' (run scaleStep customTrans evs st))) = Some c) \<and>
   (childRectRef st = Some ch \<longrightarrow>
      childRectRef (run scaleStep customTrans evs st) = Some ch \<and>
      originChildRect (fst (getOriginRect refs' (run scaleStep customTrans evs st))) = Some ch)"
proof (intro conjI impI)
  assume "mousedownLock st"
  then show "containerRectRef (handleMove customTrans refs e st) =
        js_or (containerRectRef st) (containerRef refs)"
    and "childRectRef (handleMove customTrans refs e st) =
        js_or (childRectRef st) (childRef refs)"
    by (rule handleMove_captures)+
next
  assume "\<not> mousedownLock st \<and> \<not> js_strict_eq (deltaY w) (Zero False) \<and> mounted refs"
  then have p: "\<not> mousedownLock st" "\<not> js_strict_eq (deltaY w) (Zero False)" "mounted refs"
    by simp_all
  show "containerRectRef (handleGesture scaleStep customTrans refs w st) =
        js_or (containerRectRef st) (containerRef refs)"
    by (rule handleGesture_captures(1) [OF p])
  show "childRectRef (handleGesture scaleStep customTrans refs w st) =
        js_or (childRectRef st) (childRef refs)"
    by (rule handleGesture_captures(2) [OF p])
next
  assume c: "containerRectRef st = Some c"
  show "containerRectRef (run scaleStep customTrans evs st) = Some c"
    by (rule run_container_cache [OF c])
  then show "originConatinerRect (fst (getOriginRect refs' (run scaleStep customTrans evs st))) = Some c"
    by (simp add: getOriginRect_cache)
next
  assume ch: "childRectRef st = Some ch"
  show "childRectRef (run scaleStep customTrans evs st) = Some ch"
    by (rule run_child_cache [OF ch])
  then show "originChildRect (fst (getOriginRect refs' (run scaleStep customTrans evs st))) = Some ch"
    by (simp add: getOriginRect_cache)
qed

text \<open>
  The claim as it was stated, that the first requesting gesture captures the snapshot
  and every later call returns the identical values, fails when an element is not mounted
  at the first request. The \<open>mousemove\<close> listener is on the document and stays attached
  when the child is taken out of the page after the press (its ref is \<open>null\<close> then): a
  pointer move of that drag gets a snapshot without the child's rect and caches none, and
  the next call, with the child mounted again, returns the child's rect.
\<close>

theorem snapshot_requeried_when_unmounted:
  "fst (getOriginRect
     \<lparr>containerRef = Some \<lparr>left = Zero False, top_y = Zero False, width = Fin 400, height = Fin 300\<rparr>,
      childRef = None\<rparr>
     ((handleMouseDown \<lparr>clientX = Zero False, clientY = Zero False\<rparr> useFreeScale)
        \<lparr>mouseXY := (Fin 10, Fin 20)\<rparr>))
   = \<lparr>originConatinerRect =
        Some \<lparr>left = Zero False, top_y = Zero False, width = Fin 400, height = Fin 300\<rparr>,
      originChildRect = None\<rparr> \<and>
   childRectRef
     (handleMove defaultCustomTrans
        \<lparr>containerRef = Some \<lparr>left = Zero False, top_y = Zero False, width = Fin 400, height = Fin 300\<rparr>,
         childRef = None\<rparr>
        \<lparr>clientX = Fin 10, clientY = Fin 20\<rparr>
        (handleMouseDown \<lparr>clientX = Zero False, clientY = Zero False\<rparr> useFreeScale))
   = None \<and>
   fst (getOriginRect
     \<lparr>containerRef = Some \<lparr>left = Zero False, top_y = Zero False, width = Fin 800, height = Fin 600\<rparr>,
      childRef = Some \<lparr>left = Fin 100, top_y = Fin 100, width = Fin 200, height = Fin 100\<rparr>\<rparr>
     (handleMove defaultCustomTrans
        \<lparr>containerRef = Some \<lparr>left = Zero False, top_y = Zero False, width = Fin 400, height = Fin 300\<rparr>,
         childRef = None\<rparr>
        \<lparr>clientX = Fin 10, clientY = Fin 20\<rparr>
        (handleMouseDown \<lparr>clientX = Zero False, clientY = Zero False\<rparr> useFreeScale)))
   = \<lparr>originConatinerRect =
        Some \<lparr>left = Zero False, top_y = Zero False, width = Fin 400, height = Fin 300\<rparr>,
      originChildRect =
        Some \<lparr>left = Fin 100, top_y = Fin 100, width = Fin 200, height = Fin 100\<rparr>\<rparr>"
  by code_simp

text \<open>
  A drag move and a wheel event capture the rects of the mounted elements; the rect of
  the child captured by the move survives a second move, a render, the end of the drag, a
  wheel event and a setter call, although the container and the child have been resized
  in the meantime.
\<close>

theorem rect_snapshot_cached_witness:
  "mousedownLock (handleMouseDown \<lparr>clientX = Zero False, clientY = Zero False\<rparr> useFreeScale) \<and>
   childRectRef
     (handleMove defaultCustomTrans
        \<lparr>containerRef = Some \<lparr>left = Zero False, top_y = Zero False, width = Fin 400, height = Fin 300\<rparr>,
         childRef = Some \<lparr>left = Fin 100, top_y = Fin 100, width = Fin 200, height = Fin 100\<rparr>\<rparr>
        \<lparr>clientX = Fin 10, clientY = Fin 20\<rparr>
        (handleMouseDown \<lparr>clientX = Zero False, clientY = Zero False\<rparr> useFreeScale)) =
     Some \<lparr>left = Fin 100, top_y = Fin 100, width = Fin 200, height = Fin 100\<rparr> \<and>
   containerRectRef
     (handleGesture defaultScaleStep defaultCustomTrans
        \<lparr>containerRef = Some \<lparr>left = Zero False, top_y = Zero False, width = Fin 400, height = Fin 300\<rparr>,
         childRef = Some \<lparr>left = Fin 100, top_y = Fin 100, width = Fin 200, height = Fin 100\<rparr>\<rparr>
        \<lparr>clientX = Fin 250, clientY = Fin 180, deltaY = Fin 120\<rparr> useFreeScale) =
     Some \<lparr>left = Zero False, top_y = Zero False, width = Fin 400, height = Fin 300\<rparr> \<and>
   originChildRect (fst (getOriginRect
     \<lparr>containerRef = Some \<lparr>left = Zero False, top_y = Zero False, width = Fin 800, height = Fin 600\<rparr>,
      childRef = Some \<lparr>left = Fin 10, top_y = Fin 10, width = Fin 50, height = Fin 50\<rparr>\<rparr>
     (run defaultScaleStep clampScale
        [(\<lparr>containerRef = Some \<lparr>left = Zero False, top_y = Zero False, width = Fin 800, height = Fin 600\<rparr>,
           childRef = Some \<lparr>left = Fin 10, top_y = Fin 10, width = Fin 50, height = Fin 50\<rparr>\<rparr>,
          Mousemove \<lparr>clientX = Fin 30, clientY = Fin 40\<rparr>),
         (\<lparr>containerRef = Some \<lparr>left = Zero False, top_y = Zero False, width = Fin 800, height = Fin 600\<rparr>,
           childRef = Some \<lparr>left = Fin 10, top_y = Fin 10, width = Fin 50, height = Fin 50\<rparr>\<rparr>,
          Render),
         (\<lparr>containerRef = Some \<lparr>left = Zero False, top_y = Zero False, width = Fin 800, height = Fin 600\<rparr>,
           childRef = Some \<lparr>left = Fin 10, top_y = Fin 10, width = Fin 50, height = Fin 50\<rparr>\<rparr>,
          Mouseup),
         (\<lparr>containerRef = Some \<lparr>left = Zero False, top_y = Zero False, width = Fin 800, height = Fin 600\<rparr>,
           childRef = Some \<lparr>left = Fin 10, top_y = Fin 10, width = Fin 50, height = Fin 50\<rparr>\<rparr>,
          Wheel \<lparr>clientX = Fin 5, clientY = Fin 6, deltaY = Fin 120\<rparr>),
         (\<lparr>containerRef = Some \<lparr>left = Zero False, top_y = Zero False, width = Fin 800, height = Fin 600\<rparr>,
           childRef = Some \<lparr>left = Fin 10, top_y = Fin 10, width = Fin 50, height = Fin 50\<rparr>\<rparr>,
          SetScale (Fin 2))]
        (handleMove defaultCustomTrans
           \<lparr>containerRef = Some \<lparr>left = Zero False, top_y = Zero False, width = Fin 400, height = Fin 300\<rparr>,
            childRef = Some \<lparr>left = Fin 100, top_y = Fin 100, width = Fin 200, height = Fin 100\<rparr>\<rparr>
           \<lparr>clientX = Fin 10, clientY = Fin 20\<rparr>
           (handleMouseDown \<lparr>clientX = Zero False, clientY = Zero False\<rparr> useFreeScale))))) =
     Some \<lparr>left = Fin 100, top_y = Fin 100, width = Fin 200, height = Fin 100\<rparr>"
proof -
  let ?container = "\<lparr>left = Zero False, top_y = Zero False, width = Fin 400, height = Fin 300\<rparr>"
  let ?child = "\<lparr>left = Fin 100, top_y = Fin 100, width = Fin 200, height = Fin 100\<rparr>"
  let ?refs = "\<lparr>containerRef = Some ?container, childRef = Some ?child\<rparr>"
  let ?down = "handleMouseDown \<lparr>clientX = Zero False, clientY = Zero False\<rparr> useFreeScale"
  let ?e = "\<lparr>clientX = Fin 10, clientY = Fin 20\<rparr>"
  let ?w = "\<lparr>clientX = Fin 250, clientY = Fin 180, deltaY = Fin 120\<rparr>"
  let ?st1 = "handleMove defaultCustomTrans ?refs ?e ?down"
  have lock: "mousedownLock ?down"
    by (simp add: handleMouseDown_def)
  have wheel: "\<not> mousedownLock useFreeScale \<and> \<not> js_strict_eq (deltaY ?w) (Zero False) \<and> mounted ?refs"
    by (simp add: useFreeScale_def mounted_def)
  have child: "childRectRef ?st1 = Some ?child"
    using rect_snapshot_cached [where st = ?down and customTrans = defaultCustomTrans and refs = ?refs
        and e = ?e, THEN conjunct1, THEN mp, OF lock]
    by (simp add: handleMouseDown_def useFreeScale_def)
  have container: "containerRectRef (handleGesture defaultScaleStep defaultCustomTrans ?refs ?w useFreeScale) =
      Some ?container"
    using rect_snapshot_cached [where st = useFreeScale and customTrans = defaultCustomTrans
        and refs = ?refs and w = ?w and scaleStep = defaultScaleStep,
        THEN conjunct2, THEN conjunct1, THEN mp, OF wheel]
    by (simp add: useFreeScale_def)
  from rect_snapshot_cached [where st = ?st1, THEN conjunct2, THEN conjunct2, THEN conjunct2, THEN mp,
        OF child]
       lock child container
  show ?thesis by blast
qed

section \<open>A pointer move changes the translation only\<close>

text \<open>
  Claim C10. A pointer move during a drag commits the translation that the correction
  function returns and nothing else: the scale and the rotation after the move are the
  scale and the rotation before it, whatever the correction function returns for them.
\<close>

theorem move_commits_translation_only:
  assumes "mousedownLock st"
  shows
    "let prev = transformConfigRef st;
         delta = (js_sub (clientX e) (fst (mouseXY st)), js_sub (clientY e) (snd (mouseXY st)));
         proposed = prev\<lparr>transXY := (js_add (fst (transXY prev)) (fst delta),
                                      js_add (snd (transXY prev)) (snd delta))\<rparr>;
         rect = fst (getOriginRect refs (st\<lparr>mouseXY := (clientX e, clientY e)\<rparr>));
         after = cells (handleMove customTrans refs e st)
     in transXY after = transXY (customTrans prev proposed rect MOVE) \<and>
        scale after = scale (cells st) \<and>
        rotate_deg after = rotate_deg (cells st)"
  by (simp add: handleMove_dragging [OF assms] Let_def)

text \<open>
  A correction function that returns the scale 5 and the rotation 90 for every move:
  the move commits its translation, and the scale 1 and the rotation 0 stay.
\<close>

theorem move_commits_translation_only_witness:
  "mousedownLock (handleMouseDown \<lparr>clientX = Fin 10, clientY = Fin 10\<rparr> useFreeScale) \<and>
   cells
     (handleMove (\<lambda>prev v rect action.
                    \<lparr>transXY = (fst (transXY v), Zero False), scale = Fin 5, rotate_deg = Fin 90\<rparr>)
        \<lparr>containerRef = Some \<lparr>left = Zero False, top_y = Zero False, width = Fin 400, height = Fin 300\<rparr>,
         childRef = Some \<lparr>left = Fin 100, top_y = Fin 100, width = Fin 200, height = Fin 100\<rparr>\<rparr>
        \<lparr>clientX = Fin 17, clientY = Fin 14\<rparr>
        (handleMouseDown \<lparr>clientX = Fin 10, clientY = Fin 10\<rparr> useFreeScale)) =
   \<lparr>transXY = (Fin 7, Zero False), scale = Fin 1, rotate_deg = Zero False\<rparr>"
proof -
  let ?st = "handleMouseDown \<lparr>clientX = Fin 10, clientY = Fin 10\<rparr> useFreeScale"
  let ?refs = "\<lparr>containerRef = Some \<lparr>left = Zero False, top_y = Zero False, width = Fin 400, height = Fin 300\<rparr>,
         childRef = Some \<lparr>left = Fin 100, top_y = Fin 100, width = Fin 200, height = Fin 100\<rparr>\<rparr>"
  let ?ct = "\<lambda>(prev::ITransRes) (v::ITransRes) (rect::IRectData) (action::IAction).
               \<lparr>transXY = (fst (transXY v), Zero False), scale = Fin 5, rotate_deg = Fin 90\<rparr>"
  let ?e = "\<lparr>clientX = Fin 17, clientY = Fin 14\<rparr>"
  have lock: "mousedownLock ?st" by (simp add: handleMouseDown_def)
  note after = move_commits_translation_only [OF lock, of ?e ?refs ?ct, unfolded Let_def]
  have t: "transXY (cells (handleMove ?ct ?refs ?e ?st)) = (Fin 7, Zero False)"
    by (rule trans [OF after [THEN conjunct1]]) code_simp
  have s: "scale (cells (handleMove ?ct ?refs ?e ?st)) = Fin 1"
    by (rule trans [OF after [THEN conjunct2, THEN conjunct1]]) code_simp
  have r: "rotate_deg (cells (handleMove ?ct ?refs ?e ?st)) = Zero False"
    by (rule trans [OF after [THEN conjunct2, THEN conjunct2]]) code_simp
  from t s r lock show ?thesis
    by (cases "cells (handleMove ?ct ?refs ?e ?st)") simp
qed

end
